theory Spec2Isabelle
  imports Complex_Main
begin

section \<open>Data model (types.ts)\<close>

text \<open>
  The TypeScript type \<open>number\<close> is modelled as \<open>real\<close>: the development reasons about
  the comparisons and the arithmetic of the geometry tests over the real numbers, without
  the rounding, the infinities and the NaN of IEEE doubles (\<open>validateLocationInput\<close>
  rejects coordinates that are NaN or out of range before the tracker is called).
  \<open>string | null\<close> is \<open>string option\<close>, with \<open>None\<close> for \<open>null\<close>; an optional field
  (\<open>coordinates?\<close>, \<open>event?\<close>) is an \<open>option\<close> as well, with \<open>None\<close> for an absent field.
\<close>

record GeoPoint =
  latitude :: real
  longitude :: real

datatype EventType = Enter | Exit

record ZoneEvent =
  event_type :: EventType
  event_zone :: string
  event_timestamp :: real

text \<open>
  \<open>VehicleLocation\<close> has the two fields of \<open>GeoPoint\<close> and three more; the tracker hands a
  \<open>VehicleLocation\<close> to functions that expect a \<open>GeoPoint\<close>, which the record extension
  allows here as structural typing does in the source.
\<close>

record VehicleLocation = GeoPoint +
  vehicleId :: string
  timestamp :: real
  currentZone :: "string option"

record VehicleStatus =
  vs_vehicleId :: string
  vs_currentZone :: "string option"
  lastLocationUpdate :: real
  lastLocation :: GeoPoint
  recentEvents :: "ZoneEvent list"
  totalEventsTracked :: nat

record TrackingResult =
  tr_vehicleId :: string
  tr_latitude :: real
  tr_longitude :: real
  tr_currentZone :: "string option"
  eventTriggered :: bool
  event :: "ZoneEvent option"

datatype ZoneType = polygon | circle

record Zone =
  zone_id :: string
  name :: string
  description :: string
  zone_type :: ZoneType
  coordinates :: "(real \<times> real) list option"
  center :: "(real \<times> real) option"
  radius :: "real option"

section \<open>Geofence detection (services/geofence.ts)\<close>

definition calculateDistance :: "'a GeoPoint_scheme \<Rightarrow> 'b GeoPoint_scheme \<Rightarrow> real" where
  "calculateDistance point1 point2 =
     (let latDiff = latitude point1 - latitude point2;
          lonDiff = longitude point1 - longitude point2
      in sqrt (latDiff * latDiff + lonDiff * lonDiff))"

definition isPointInCircle :: "'a GeoPoint_scheme \<Rightarrow> real \<times> real \<Rightarrow> real \<Rightarrow> bool" where
  "isPointInCircle point c r =
     (let distance = calculateDistance point \<lparr>latitude = fst c, longitude = snd c\<rparr>
      in distance \<le> r)"

text \<open>
  The loop of \<open>isPointInPolygon\<close>:
  \<^verbatim>\<open>for (let i = 0, j = n - 1; i < n; j = i++)\<close>.
  The body reads index \<open>j\<close> only when \<open>i < n\<close>, and then \<open>j\<close> is \<open>n - 1\<close> or \<open>i - 1\<close>, so
  both reads are in range. The division by \<open>yj - yi\<close> stands to the right of \<open>&&\<close> and is
  evaluated only when exactly one of \<open>yi\<close>, \<open>yj\<close> exceeds \<open>y\<close>, so the divisor is not zero
  where it is used.
\<close>

text \<open>The test \<open>intersect\<close> of the loop body, for the edge between the vertices \<open>vi\<close> and \<open>vj\<close>.\<close>

definition intersect :: "real \<Rightarrow> real \<Rightarrow> real \<times> real \<Rightarrow> real \<times> real \<Rightarrow> bool" where
  "intersect x y vi vj =
     (let xi = fst vi; yi = snd vi; xj = fst vj; yj = snd vj
      in (yi > y) \<noteq> (yj > y) \<and> x < ((xj - xi) * (y - yi)) / (yj - yi) + xi)"

function polygonLoop ::
  "real \<Rightarrow> real \<Rightarrow> (real \<times> real) list \<Rightarrow> nat \<Rightarrow> nat \<Rightarrow> bool \<Rightarrow> bool" where
  "polygonLoop x y cs i j inside =
     (if i < length cs then
        polygonLoop x y cs (i + 1) i
          (if intersect x y (cs ! i) (cs ! j) then \<not> inside else inside)
      else inside)"
  by pat_completeness auto
termination
  by (relation "measure (\<lambda>(x, y, cs, i, j, inside). length cs - i)") auto

declare polygonLoop.simps [simp del]

definition isPointInPolygon :: "'a GeoPoint_scheme \<Rightarrow> (real \<times> real) list \<Rightarrow> bool" where
  "isPointInPolygon point polygonCoordinates =
     polygonLoop (latitude point) (longitude point) polygonCoordinates
       0 (length polygonCoordinates - 1) False"

definition isPointInZone :: "'a GeoPoint_scheme \<Rightarrow> Zone \<Rightarrow> bool" where
  "isPointInZone point z =
     (if zone_type z = circle \<and> center z \<noteq> None \<and> radius z \<noteq> None
      then isPointInCircle point (the (center z)) (the (radius z))
      else if zone_type z = polygon \<and> coordinates z \<noteq> None
      then isPointInPolygon point (the (coordinates z))
      else False)"

definition MAX_REALISTIC_JUMP :: real where
  "MAX_REALISTIC_JUMP = 0.1"

definition isAnomalousMovement ::
  "'a GeoPoint_scheme option \<Rightarrow> 'b GeoPoint_scheme \<Rightarrow> bool" where
  "isAnomalousMovement previousLocation currentLocation =
     (case previousLocation of
        None \<Rightarrow> False
      | Some pl \<Rightarrow> calculateDistance pl currentLocation > MAX_REALISTIC_JUMP)"

section \<open>Zone configuration (config/zones.ts)\<close>

definition initializeZones :: "Zone list" where
  "initializeZones =
     [\<lparr>zone_id = ''downtown'', name = ''Downtown'',
       description = ''City center commercial zone'', zone_type = polygon,
       coordinates = Some [(40.7128, -74.0060), (40.7150, -74.0060),
                           (40.7150, -74.0040), (40.7128, -74.0040)],
       center = None, radius = None\<rparr>,
      \<lparr>zone_id = ''airport'', name = ''Airport'',
       description = ''Airport terminal zone'', zone_type = circle,
       coordinates = None, center = Some (40.7769, -73.8740), radius = Some 0.01\<rparr>,
      \<lparr>zone_id = ''harbor'', name = ''Harbor'',
       description = ''Waterfront harbor zone'', zone_type = polygon,
       coordinates = Some [(40.7061, -74.0087), (40.7061, -73.9960),
                           (40.6995, -73.9960), (40.6995, -74.0087)],
       center = None, radius = None\<rparr>,
      \<lparr>zone_id = ''stadium'', name = ''Stadium'',
       description = ''Sports complex zone'', zone_type = circle,
       coordinates = None, center = Some (40.7282, -73.9942), radius = Some 0.008\<rparr>]"

section \<open>Vehicle tracking (services/vehicleTracker.ts)\<close>

record VehicleData =
  location :: VehicleLocation
  events :: "ZoneEvent list"

type_synonym VehicleStore = "string \<rightharpoonup> VehicleData"

text \<open>
  What the two loggers receive. The messages of the source are strings built from the
  same data; an entry keeps the data instead of the formatted text.
\<close>

datatype LogEntry =
    AnomalousMovementWarning string real real real real
  | ExitedAndEnteredLog string string string
  | ExitedLog string string
  | EnteredLog string string
  | AllClearedLog

definition MAX_EVENTS_PER_VEHICLE :: nat where
  "MAX_EVENTS_PER_VEHICLE = 50"

text \<open>\<open>xs.slice(-n)\<close> for \<open>n > 0\<close>: the last \<open>n\<close> elements, all of them when there are fewer.\<close>

definition slice_last :: "nat \<Rightarrow> 'a list \<Rightarrow> 'a list" where
  "slice_last n xs = drop (length xs - n) xs"

text \<open>
  \<open>s || null\<close> on a \<open>string | null\<close>: the empty string is falsy in JavaScript, so it
  becomes \<open>null\<close> like \<open>null\<close> itself.
\<close>

definition orNull :: "string option \<Rightarrow> string option" where
  "orNull s = (case s of None \<Rightarrow> None | Some z \<Rightarrow> if z = [] then None else Some z)"

fun findCurrentZone :: "Zone list \<Rightarrow> 'a GeoPoint_scheme \<Rightarrow> string option" where
  "findCurrentZone [] point = None"
| "findCurrentZone (z # zs) point =
     (if isPointInZone point z then Some (name z) else findCurrentZone zs point)"

text \<open>\<open>const previousZone = previousData?.location.currentZone || null\<close>\<close>

definition previousZone :: "VehicleData option \<Rightarrow> string option" where
  "previousZone previousData =
     (case previousData of
        None \<Rightarrow> None
      | Some d \<Rightarrow> orNull (currentZone (location d)))"

text \<open>
  The block \<open>if (previousZone !== newZone) { ... }\<close>: the events it pushes onto the
  vehicle's history, the flag \<open>eventTriggered\<close>, the variable \<open>event\<close> and what it logs.
\<close>

definition zoneChange ::
  "string \<Rightarrow> string option \<Rightarrow> string option \<Rightarrow> real
     \<Rightarrow> ZoneEvent list \<times> bool \<times> ZoneEvent option \<times> LogEntry list" where
  "zoneChange vid prevZone newZone ts =
     (if prevZone \<noteq> newZone then
        (if prevZone \<noteq> None \<and> newZone \<noteq> None then
           (let exitEvent = \<lparr>event_type = Exit, event_zone = the prevZone, event_timestamp = ts\<rparr>;
                enterEvent = \<lparr>event_type = Enter, event_zone = the newZone, event_timestamp = ts\<rparr>
            in ([exitEvent, enterEvent], True, Some enterEvent,
                [ExitedAndEnteredLog vid (the prevZone) (the newZone)]))
         else if prevZone \<noteq> None then
           (let ev = \<lparr>event_type = Exit, event_zone = the prevZone, event_timestamp = ts\<rparr>
            in ([ev], True, Some ev, [ExitedLog vid (the prevZone)]))
         else if newZone \<noteq> None then
           (let ev = \<lparr>event_type = Enter, event_zone = the newZone, event_timestamp = ts\<rparr>
            in ([ev], True, Some ev, [EnteredLog vid (the newZone)]))
         else ([], False, None, []))
      else ([], False, None, []))"

text \<open>
  \<open>trackVehicleLocation\<close> with the module state made explicit: the zone catalog that
  \<open>getAllZones()\<close> returns and the \<open>vehicleStore\<close> map are arguments, and the call
  returns the new store, the \<open>TrackingResult\<close> and the entries sent to the logger, in order.
\<close>

definition trackVehicleLocation ::
  "Zone list \<Rightarrow> VehicleStore \<Rightarrow> string \<Rightarrow> real \<Rightarrow> real \<Rightarrow> real
     \<Rightarrow> VehicleStore \<times> TrackingResult \<times> LogEntry list" where
  "trackVehicleLocation zones vehicleStore vid lat lon ts =
     (let currentLocation = \<lparr>latitude = lat, longitude = lon\<rparr>;
          previousData = vehicleStore vid;
          previousLocation = map_option location previousData;
          warned =
            (case previousLocation of
               None \<Rightarrow> []
             | Some pl \<Rightarrow>
                 if isAnomalousMovement (Some pl) currentLocation
                 then [AnomalousMovementWarning vid (latitude pl) (longitude pl) lat lon]
                 else []);
          newZone = findCurrentZone zones currentLocation;
          prevZone = previousZone previousData;
          newLocation = \<lparr>latitude = lat, longitude = lon, vehicleId = vid,
                         timestamp = ts, currentZone = newZone\<rparr>;
          vehicleData0 =
            (case vehicleStore vid of
               None \<Rightarrow> \<lparr>location = newLocation, events = []\<rparr>
             | Some d \<Rightarrow> d\<lparr>location := newLocation\<rparr>);
          change = zoneChange vid prevZone newZone ts;
          vehicleData1 = vehicleData0\<lparr>events := events vehicleData0 @ fst change\<rparr>;
          vehicleData2 =
            (if length (events vehicleData1) > MAX_EVENTS_PER_VEHICLE
             then vehicleData1\<lparr>events := slice_last MAX_EVENTS_PER_VEHICLE (events vehicleData1)\<rparr>
             else vehicleData1)
      in (vehicleStore(vid \<mapsto> vehicleData2),
          \<lparr>tr_vehicleId = vid, tr_latitude = lat, tr_longitude = lon,
           tr_currentZone = newZone, eventTriggered = fst (snd change),
           event = fst (snd (snd change))\<rparr>,
          warned @ snd (snd (snd change))))"

definition getVehicleStatus :: "VehicleStore \<Rightarrow> string \<Rightarrow> VehicleStatus option" where
  "getVehicleStatus vehicleStore vid =
     (case vehicleStore vid of
        None \<Rightarrow> None
      | Some vehicleData \<Rightarrow>
          Some \<lparr>vs_vehicleId = vid,
                vs_currentZone = orNull (currentZone (location vehicleData)),
                lastLocationUpdate = timestamp (location vehicleData),
                lastLocation = \<lparr>latitude = latitude (location vehicleData),
                                 longitude = longitude (location vehicleData)\<rparr>,
                recentEvents = slice_last 10 (events vehicleData),
                totalEventsTracked = length (events vehicleData)\<rparr>)"

definition clearAllVehicleData :: "VehicleStore \<Rightarrow> VehicleStore \<times> LogEntry list" where
  "clearAllVehicleData vehicleStore = (Map.empty, [AllClearedLog])"

section \<open>Observations and runs\<close>

text \<open>The stored history of a vehicle; a vehicle that is not in the store has none.\<close>

definition eventsOf :: "VehicleStore \<Rightarrow> string \<Rightarrow> ZoneEvent list" where
  "eventsOf vehicleStore vid = (case vehicleStore vid of None \<Rightarrow> [] | Some d \<Rightarrow> events d)"

text \<open>The events that one call of \<open>trackVehicleLocation\<close> pushes onto the history.\<close>

definition pushed ::
  "Zone list \<Rightarrow> VehicleStore \<Rightarrow> string \<Rightarrow> real \<Rightarrow> real \<Rightarrow> real \<Rightarrow> ZoneEvent list" where
  "pushed zones vehicleStore vid lat lon ts =
     fst (zoneChange vid (previousZone (vehicleStore vid))
            (findCurrentZone zones \<lparr>latitude = lat, longitude = lon\<rparr>) ts)"

text \<open>
  A run is a list of location reports \<open>(vehicleId, latitude, longitude, timestamp)\<close>
  handled one after the other against one catalog. \<open>trackAll\<close> returns the final store
  and the results in order; \<open>pushedEvents\<close> collects everything the run pushes onto the
  history of one vehicle, with nothing evicted.
\<close>

type_synonym LocationReport = "string \<times> real \<times> real \<times> real"

fun trackAll ::
  "Zone list \<Rightarrow> VehicleStore \<Rightarrow> LocationReport list \<Rightarrow> VehicleStore \<times> TrackingResult list" where
  "trackAll zones s [] = (s, [])"
| "trackAll zones s ((vid, lat, lon, ts) # rest) =
     (let out = trackVehicleLocation zones s vid lat lon ts;
          later = trackAll zones (fst out) rest
      in (fst later, fst (snd out) # snd later))"



text \<open>
  The stores that calls of \<open>trackVehicleLocation\<close> and \<open>clearAllVehicleData\<close> can build
  from the empty store, when every call sees a catalog that satisfies \<open>ok\<close> (the catalog
  may change between calls).
\<close>

inductive reachable :: "(Zone list \<Rightarrow> bool) \<Rightarrow> VehicleStore \<Rightarrow> bool" for ok where
  fresh: "reachable ok Map.empty"
| tracked: "reachable ok s \<Longrightarrow> ok zones
              \<Longrightarrow> reachable ok (fst (trackVehicleLocation zones s vid lat lon ts))"
| cleared: "reachable ok s \<Longrightarrow> reachable ok (fst (clearAllVehicleData s))"

text \<open>
  The two requests that change the store, and the vehicles reported since the last reset
  in a list of requests that has the latest request first.
\<close>

datatype Request = TrackRequest string real real real | ResetRequest

fun handleRequest :: "Zone list \<Rightarrow> VehicleStore \<Rightarrow> Request \<Rightarrow> VehicleStore" where
  "handleRequest zones s (TrackRequest vid lat lon ts) =
     fst (trackVehicleLocation zones s vid lat lon ts)"
| "handleRequest zones s ResetRequest = fst (clearAllVehicleData s)"

fun trackedSinceReset :: "Request list \<Rightarrow> string set" where
  "trackedSinceReset [] = {}"
| "trackedSinceReset (TrackRequest vid lat lon ts # earlier) = insert vid (trackedSinceReset earlier)"
| "trackedSinceReset (ResetRequest # earlier) = {}"

definition isEnterOf :: "string \<Rightarrow> ZoneEvent \<Rightarrow> bool" where
  "isEnterOf z e = (event_type e = Enter \<and> event_zone e = z)"

text \<open>
  History and state agree for one vehicle: in a zone, the last event is the entry into
  that zone; in no zone, the last event, if there is one, is an exit.
\<close>

definition coherent :: "VehicleData \<Rightarrow> bool" where
  "coherent d =
     (case currentZone (location d) of
        Some z \<Rightarrow> events d \<noteq> [] \<and> isEnterOf z (last (events d))
      | None \<Rightarrow> events d = [] \<or> event_type (last (events d)) = Exit)"

definition namesNonEmpty :: "Zone list \<Rightarrow> bool" where
  "namesNonEmpty zones = list_all (\<lambda>z. name z \<noteq> []) zones"

section \<open>Catalogs of the examples\<close>

text \<open>
  Three circles: \<open>zoneA\<close> and \<open>zoneB\<close> overlap, \<open>zoneFar\<close> is away from both. \<open>unnamedZone\<close>
  is a circle whose name is the empty string.
\<close>

definition zoneA :: Zone where
  "zoneA = \<lparr>zone_id = ''a'', name = ''A'', description = ''first'', zone_type = circle,
            coordinates = None, center = Some (0, 0), radius = Some 2\<rparr>"

definition zoneB :: Zone where
  "zoneB = \<lparr>zone_id = ''b'', name = ''B'', description = ''second'', zone_type = circle,
            coordinates = None, center = Some (1, 0), radius = Some 2\<rparr>"

definition zoneFar :: Zone where
  "zoneFar = \<lparr>zone_id = ''far'', name = ''Far'', description = ''third'', zone_type = circle,
              coordinates = None, center = Some (10, 10), radius = Some 1\<rparr>"

definition unnamedZone :: Zone where
  "unnamedZone = \<lparr>zone_id = ''unnamed'', name = [], description = ''no name'',
                  zone_type = circle, coordinates = None, center = Some (0, 0),
                  radius = Some 1\<rparr>"

text \<open>The store after vehicle \<open>t1\<close> has reported a point of \<open>zoneA\<close> once.\<close>

definition storeInA :: VehicleStore where
  "storeInA = fst (trackVehicleLocation [zoneA, zoneFar] Map.empty ''t1'' 1 0 100)"


text \<open>The configured catalog after \<open>addZone\<close> has added \<open>unnamedZone\<close> to it.\<close>

definition catalogWithUnnamed :: "Zone list" where
  "catalogWithUnnamed = initializeZones @ [unnamedZone]"

text \<open>The store after vehicle \<open>t1\<close> has reported a point of \<open>unnamedZone\<close> once.\<close>

definition storeInUnnamed :: VehicleStore where
  "storeInUnnamed = fst (trackVehicleLocation catalogWithUnnamed Map.empty ''t1'' 0 0 1)"

section \<open>Binary64 arithmetic of the circle test\<close>

text \<open>
  The numbers of the program are IEEE 754 binary64 values, and each arithmetic operation
  (\<open>-\<close>, \<open>*\<close>, \<open>+\<close>, \<open>Math.sqrt\<close>) returns the exact result rounded to the nearest binary64
  value, a tie going to the value with the even significand. \<open>toDouble x\<close> is that
  rounding of the real number \<open>x\<close>. The binary64 values around \<open>x\<close> are the integer
  multiples of \<open>2 powi (binade x - 52)\<close>, where \<open>binade x\<close> is the exponent of \<open>x\<close>, not
  below \<open>- 1022\<close>: the subnormal numbers have the spacing of the smallest normal ones. A
  rounded result of magnitude \<open>2 powi 1024\<close> or more is an infinity; \<open>toDouble\<close> returns
  \<open>None\<close> for it. \<open>isDouble x\<close> says that \<open>x\<close> is a binary64 value. \<open>Math.sqrt\<close> is
  taken to be the correctly rounded square root of IEEE 754.
\<close>

definition roundEven :: "real \<Rightarrow> int" where
  "roundEven y =
     (let f = \<lfloor>y\<rfloor>; r = y - of_int f
      in if r < 1 / 2 then f else if 1 / 2 < r then f + 1 else if even f then f else f + 1)"

definition binade :: "real \<Rightarrow> int" where
  "binade x = max \<lfloor>log 2 \<bar>x\<bar>\<rfloor> (- 1022)"

definition toDouble :: "real \<Rightarrow> real option" where
  "toDouble x =
     (if x = 0 then Some 0
      else (let u = 2 powi (binade x - 52);
                y = of_int (roundEven (x / u)) * u
            in if 2 powi 1024 \<le> \<bar>y\<bar> then None else Some y))"

definition isDouble :: "real \<Rightarrow> bool" where
  "isDouble x = (toDouble x = Some x)"

text \<open>
  \<open>calculateDistance\<close> and \<open>isPointInCircle\<close> above read the arithmetic of the code over
  the real numbers, and the model of the tracker uses them. \<open>calculateDistance64\<close> and
  \<open>isPointInCircle64\<close> are the same two functions with every operation rounded as the
  program rounds it:
  \<^verbatim>\<open>latDiff = point1.latitude - point2.latitude\<close>,
  \<^verbatim>\<open>lonDiff = point1.longitude - point2.longitude\<close>,
  \<^verbatim>\<open>Math.sqrt(latDiff * latDiff + lonDiff * lonDiff)\<close> and
  \<^verbatim>\<open>distance <= radius\<close>.
  The coordinates and the radius are finite numbers. An intermediate result that is an
  infinity stays one to the end: the square of an infinity, a sum with an infinite
  summand and the square root of an infinity are \<open>+Infinity\<close>, and no operand is ever
  \<open>NaN\<close>. So the result \<open>None\<close> of \<open>calculateDistance64\<close> stands for the distance
  \<open>+Infinity\<close>, which is not \<open><=\<close> any finite radius.
\<close>

definition calculateDistance64 :: "'a GeoPoint_scheme \<Rightarrow> 'b GeoPoint_scheme \<Rightarrow> real option" where
  "calculateDistance64 point1 point2 =
     (case toDouble (latitude point1 - latitude point2) of
        None \<Rightarrow> None
      | Some latDiff \<Rightarrow>
     (case toDouble (longitude point1 - longitude point2) of
        None \<Rightarrow> None
      | Some lonDiff \<Rightarrow>
     (case toDouble (latDiff * latDiff) of
        None \<Rightarrow> None
      | Some a \<Rightarrow>
     (case toDouble (lonDiff * lonDiff) of
        None \<Rightarrow> None
      | Some b \<Rightarrow>
     (case toDouble (a + b) of
        None \<Rightarrow> None
      | Some s \<Rightarrow> toDouble (sqrt s))))))"

definition isPointInCircle64 :: "'a GeoPoint_scheme \<Rightarrow> real \<times> real \<Rightarrow> real \<Rightarrow> bool" where
  "isPointInCircle64 point c r =
     (case calculateDistance64 point \<lparr>latitude = fst c, longitude = snd c\<rparr> of
        None \<Rightarrow> False
      | Some distance \<Rightarrow> distance \<le> r)"

text \<open>
  The accuracy of a rounded operation. \<open>unitRoundoff\<close> is the largest relative error of
  one rounding of a number that is not subnormal; \<open>near k x y\<close> says that \<open>y\<close> is \<open>x\<close> up
  to \<open>k\<close> such errors. \<open>normalOrZero x\<close> says that \<open>x\<close> is zero or at least as large as the
  smallest normal number, and \<open>wellScaled x\<close> that \<open>x\<close> is zero or so large that its
  square is not subnormal.
\<close>

definition unitRoundoff :: real where
  "unitRoundoff = 1 / 2 ^ 53"

definition near :: "nat \<Rightarrow> real \<Rightarrow> real \<Rightarrow> bool" where
  "near k x y = (x * (1 - unitRoundoff) ^ k \<le> y \<and> y \<le> x * (1 + unitRoundoff) ^ k)"

definition normalOrZero :: "real \<Rightarrow> bool" where
  "normalOrZero x = (x = 0 \<or> 2 powi (- 1022) \<le> \<bar>x\<bar>)"

definition wellScaled :: "real \<Rightarrow> bool" where
  "wellScaled x = (x = 0 \<or> 2 powi (- 510) \<le> \<bar>x\<bar>)"

text \<open>A binary64 coordinate whose square is not finite in binary64.\<close>

definition hugeCoordinate :: real where
  "hugeCoordinate = 2 ^ 600"

section \<open>Geometry: helper lemmas\<close>

lemma calculateDistance_le_iff:
  assumes "0 \<le> r"
  shows "calculateDistance p q \<le> r \<longleftrightarrow>
         (latitude p - latitude q)\<^sup>2 + (longitude p - longitude q)\<^sup>2 \<le> r\<^sup>2"
proof -
  have "sqrt ((latitude p - latitude q)\<^sup>2 + (longitude p - longitude q)\<^sup>2) \<le> sqrt (r\<^sup>2)
        \<longleftrightarrow> (latitude p - latitude q)\<^sup>2 + (longitude p - longitude q)\<^sup>2 \<le> r\<^sup>2"
    by (rule real_sqrt_le_iff)
  with assms show ?thesis
    by (simp add: calculateDistance_def Let_def power2_eq_square)
qed

lemma calculateDistance_gt_iff:
  "0 \<le> r \<Longrightarrow> r < calculateDistance p q \<longleftrightarrow>
     r\<^sup>2 < (latitude p - latitude q)\<^sup>2 + (longitude p - longitude q)\<^sup>2"
  using calculateDistance_le_iff [of r p q] by auto

lemma isPointInCircle_sq:
  "0 \<le> r \<Longrightarrow> isPointInCircle p c r
     \<longleftrightarrow> (latitude p - fst c)\<^sup>2 + (longitude p - snd c)\<^sup>2 \<le> r\<^sup>2"
  by (simp add: isPointInCircle_def Let_def calculateDistance_le_iff)

lemma isPointInPolygon_quad:
  "isPointInPolygon p [a, b, c, d] =
     (let x = latitude p; y = longitude p;
          i0 = intersect x y a d;
          i1 = (if intersect x y b a then \<not> i0 else i0);
          i2 = (if intersect x y c b then \<not> i1 else i1)
      in if intersect x y d c then \<not> i2 else i2)"
  unfolding isPointInPolygon_def
  apply (subst polygonLoop.simps)
  apply (subst polygonLoop.simps)
  apply (subst polygonLoop.simps)
  apply (subst polygonLoop.simps)
  apply (subst polygonLoop.simps)
  apply (simp add: Let_def)
  done

lemma zone_facts:
  "isPointInZone \<lparr>latitude = 1, longitude = 0\<rparr> zoneA"
  "isPointInZone \<lparr>latitude = 1, longitude = 0\<rparr> zoneB"
  "\<not> isPointInZone \<lparr>latitude = 1, longitude = 0\<rparr> zoneFar"
  "\<not> isPointInZone \<lparr>latitude = 5, longitude = 5\<rparr> zoneA"
  "\<not> isPointInZone \<lparr>latitude = 5, longitude = 5\<rparr> zoneB"
  "\<not> isPointInZone \<lparr>latitude = 5, longitude = 5\<rparr> zoneFar"
  "\<not> isPointInZone \<lparr>latitude = 10, longitude = 10\<rparr> zoneA"
  "\<not> isPointInZone \<lparr>latitude = 10, longitude = 10\<rparr> zoneB"
  "isPointInZone \<lparr>latitude = 10, longitude = 10\<rparr> zoneFar"
  "isPointInZone \<lparr>latitude = 0, longitude = 0\<rparr> unnamedZone"
  "\<not> isPointInZone \<lparr>latitude = 5, longitude = 5\<rparr> unnamedZone"
  "\<not> isPointInZone \<lparr>latitude = 10, longitude = 10\<rparr> unnamedZone"
  by (simp_all add: isPointInZone_def zoneA_def zoneB_def zoneFar_def unnamedZone_def
      isPointInCircle_sq)

section \<open>The circle test\<close>

subsection \<open>Rounding to binary64\<close>

lemma roundEven_eq:
  assumes "of_int n - 1 / 2 < y" and "y < of_int n + 1 / 2"
  shows "roundEven y = n"
proof (cases "of_int n \<le> y")
  case True
  with assms have "\<lfloor>y\<rfloor> = n" by linarith
  with assms show ?thesis by (simp add: roundEven_def Let_def)
next
  case False
  with assms have "\<lfloor>y\<rfloor> = n - 1" by linarith
  with assms False show ?thesis by (simp add: roundEven_def Let_def)
qed

lemma roundEven_error: "\<bar>of_int (roundEven y) - y\<bar> \<le> 1 / 2"
  unfolding roundEven_def Let_def by (auto; linarith)

lemma powr_powi: "(2::real) powr (of_int k) = 2 powi k"
  using powr_real_of_int' [of 2 k] by simp

lemma binade_eq:
  assumes "2 powi e \<le> \<bar>x\<bar>" and "\<bar>x\<bar> < 2 powi (e + 1)" and "- 1022 \<le> e"
  shows "binade x = e"
proof -
  have "(0::real) < 2 powi e" by simp
  with assms(1) have pos: "0 < \<bar>x\<bar>" by linarith
  have lower: "2 powr (of_int e) \<le> \<bar>x\<bar>"
    using assms(1) by (simp only: powr_powi)
  have "real_of_int e + 1 = of_int (e + 1)" by simp
  then have upper: "\<bar>x\<bar> < 2 powr (of_int e + 1)"
    using assms(2) by (simp only: powr_powi)
  have "\<lfloor>log 2 \<bar>x\<bar>\<rfloor> = e"
    using floor_log_eq_powr_iff [of "\<bar>x\<bar>" 2 e] pos lower upper by simp
  with assms(3) show ?thesis by (simp add: binade_def)
qed

lemma toDouble_eval:
  assumes "2 powi e \<le> \<bar>x\<bar>" and "\<bar>x\<bar> < 2 powi (e + 1)" and "- 1022 \<le> e"
    and "of_int n - 1 / 2 < x / 2 powi (e - 52)" and "x / 2 powi (e - 52) < of_int n + 1 / 2"
    and "\<bar>of_int n * 2 powi (e - 52)\<bar> < (2::real) powi 1024"
  shows "toDouble x = Some (of_int n * 2 powi (e - 52))"
proof -
  have "(0::real) < 2 powi e" by simp
  with assms(1) have "0 < \<bar>x\<bar>" by linarith
  then have "x \<noteq> 0" by auto
  moreover have "binade x = e" using assms(1-3) by (rule binade_eq)
  moreover have "roundEven (x / 2 powi (e - 52)) = n" using assms(4,5) by (rule roundEven_eq)
  ultimately show ?thesis using assms(6) by (simp add: toDouble_def Let_def)
qed

subsection \<open>The relative error of the rounded operations\<close>

lemma unitRoundoff_bounds: "0 < unitRoundoff" "unitRoundoff < 1"
  by (simp_all add: unitRoundoff_def)

lemma binade_bounds:
  assumes "x \<noteq> 0"
  shows "2 powi \<lfloor>log 2 \<bar>x\<bar>\<rfloor> \<le> \<bar>x\<bar>" and "\<bar>x\<bar> < 2 powi (\<lfloor>log 2 \<bar>x\<bar>\<rfloor> + 1)"
proof -
  from assms have pos: "0 < \<bar>x\<bar>" by simp
  from floor_log_eq_powr_iff [of "\<bar>x\<bar>" 2 "\<lfloor>log 2 \<bar>x\<bar>\<rfloor>"] pos
  have both: "2 powr (of_int \<lfloor>log 2 \<bar>x\<bar>\<rfloor>) \<le> \<bar>x\<bar>
      \<and> \<bar>x\<bar> < 2 powr (of_int \<lfloor>log 2 \<bar>x\<bar>\<rfloor> + 1)"
    by simp
  then show "2 powi \<lfloor>log 2 \<bar>x\<bar>\<rfloor> \<le> \<bar>x\<bar>" by (simp only: powr_powi)
  have "real_of_int \<lfloor>log 2 \<bar>x\<bar>\<rfloor> + 1 = of_int (\<lfloor>log 2 \<bar>x\<bar>\<rfloor> + 1)" by simp
  with both show "\<bar>x\<bar> < 2 powi (\<lfloor>log 2 \<bar>x\<bar>\<rfloor> + 1)" by (simp only: powr_powi)
qed

lemma toDouble_error:
  assumes y: "toDouble x = Some y" and normal: "2 powi (- 1022) \<le> \<bar>x\<bar>"
  shows "\<bar>y - x\<bar> \<le> \<bar>x\<bar> * unitRoundoff"
proof -
  have "(0::real) < 2 powi (- 1022)" by simp
  with normal have "0 < \<bar>x\<bar>" by linarith
  then have nz: "x \<noteq> 0" by auto
  define e where "e = \<lfloor>log 2 \<bar>x\<bar>\<rfloor>"
  define u :: real where "u = 2 powi (e - 52)"
  have lower: "2 powi e \<le> \<bar>x\<bar>" and upper: "\<bar>x\<bar> < 2 powi (e + 1)"
    unfolding e_def using binade_bounds [OF nz] by simp_all
  have "- 1022 < e + 1"
  proof (rule ccontr)
    assume "\<not> - 1022 < e + 1"
    then have "(2::real) powi (e + 1) \<le> 2 powi (- 1022)"
      by (intro power_int_increasing) simp_all
    with normal upper show False by linarith
  qed
  then have "binade x = e" by (simp add: binade_def e_def)
  with y nz have yu: "y = of_int (roundEven (x / u)) * u"
    by (simp add: toDouble_def Let_def u_def split: if_splits)
  have upos: "0 < u" by (simp add: u_def)
  have "y - x = (of_int (roundEven (x / u)) - x / u) * u"
    using upos by (simp add: yu left_diff_distrib)
  then have "\<bar>y - x\<bar> = \<bar>of_int (roundEven (x / u)) - x / u\<bar> * u"
    using upos by (simp add: abs_mult)
  also have "\<dots> \<le> 1 / 2 * u"
    using roundEven_error [of "x / u"] upos by (intro mult_right_mono) simp_all
  also have "1 / 2 * u = 2 powi e * unitRoundoff"
    by (simp add: u_def power_int_diff unitRoundoff_def)
  also have "\<dots> \<le> \<bar>x\<bar> * unitRoundoff"
    using lower unitRoundoff_bounds(1) by (intro mult_right_mono) simp_all
  finally show ?thesis .
qed

lemma near_round:
  assumes "toDouble x = Some y" and "normalOrZero x"
  shows "near 1 \<bar>x\<bar> \<bar>y\<bar>"
proof (cases "x = 0")
  case True
  with assms(1) show ?thesis by (simp add: toDouble_def near_def)
next
  case False
  with assms(2) have "2 powi (- 1022) \<le> \<bar>x\<bar>" by (simp add: normalOrZero_def)
  from toDouble_error [OF assms(1) this] have "\<bar>\<bar>y\<bar> - \<bar>x\<bar>\<bar> \<le> \<bar>x\<bar> * unitRoundoff"
    by linarith
  then have "\<bar>x\<bar> - \<bar>x\<bar> * unitRoundoff \<le> \<bar>y\<bar>" and "\<bar>y\<bar> \<le> \<bar>x\<bar> + \<bar>x\<bar> * unitRoundoff"
    by linarith+
  then show ?thesis by (simp add: near_def algebra_simps)
qed

lemma near_nonneg:
  assumes "0 \<le> x" and "near k x y"
  shows "0 \<le> y"
proof -
  have "0 \<le> x * (1 - unitRoundoff) ^ k"
    using assms(1) unitRoundoff_bounds by simp
  with assms(2) show ?thesis by (simp add: near_def)
qed

lemma near_mult:
  assumes "0 \<le> x" "0 \<le> x'" "near j x y" "near k x' y'"
  shows "near (j + k) (x * x') (y * y')"
proof -
  let ?lo = "1 - unitRoundoff" and ?hi = "1 + unitRoundoff"
  have pos: "0 \<le> ?lo" "0 \<le> ?hi" using unitRoundoff_bounds by simp_all
  have y: "0 \<le> y" "0 \<le> y'" using assms near_nonneg by blast+
  have "(x * ?lo ^ j) * (x' * ?lo ^ k) \<le> y * y'"
    using assms y pos by (intro mult_mono) (simp_all add: near_def)
  moreover have "y * y' \<le> (x * ?hi ^ j) * (x' * ?hi ^ k)"
    using assms y pos by (intro mult_mono) (simp_all add: near_def)
  ultimately show ?thesis by (simp add: near_def power_add mult_ac)
qed

lemma near_add: "near k x y \<Longrightarrow> near k x' y' \<Longrightarrow> near k (x + x') (y + y')"
  by (simp add: near_def distrib_right)

lemma near_trans:
  assumes "near j x y" "near k y z"
  shows "near (j + k) x z"
proof -
  let ?lo = "1 - unitRoundoff" and ?hi = "1 + unitRoundoff"
  have pos: "0 \<le> ?lo ^ k" "0 \<le> ?hi ^ k" using unitRoundoff_bounds by simp_all
  have "(x * ?lo ^ j) * ?lo ^ k \<le> y * ?lo ^ k"
    using assms(1) pos by (intro mult_right_mono) (simp_all add: near_def)
  also have "\<dots> \<le> z" using assms(2) by (simp add: near_def)
  finally have lower: "x * ?lo ^ (j + k) \<le> z" by (simp add: power_add mult_ac)
  have "z \<le> y * ?hi ^ k" using assms(2) by (simp add: near_def)
  also have "\<dots> \<le> (x * ?hi ^ j) * ?hi ^ k"
    using assms(1) pos by (intro mult_right_mono) (simp_all add: near_def)
  finally have "z \<le> x * ?hi ^ (j + k)" by (simp add: power_add mult_ac)
  with lower show ?thesis by (simp add: near_def)
qed

lemma sqrt_power_double: "0 \<le> a \<Longrightarrow> sqrt (a ^ (2 * k)) = a ^ k"
proof -
  assume "0 \<le> a"
  have "a ^ (2 * k) = (a ^ k)\<^sup>2" by (simp add: power_mult [symmetric] mult.commute)
  with \<open>0 \<le> a\<close> show ?thesis by simp
qed

lemma near_sqrt:
  assumes "near (2 * k) x y"
  shows "near k (sqrt x) (sqrt y)"
proof -
  let ?lo = "1 - unitRoundoff" and ?hi = "1 + unitRoundoff"
  have pos: "0 \<le> ?lo" "0 \<le> ?hi" using unitRoundoff_bounds by simp_all
  from assms have "sqrt (x * ?lo ^ (2 * k)) \<le> sqrt y" "sqrt y \<le> sqrt (x * ?hi ^ (2 * k))"
    by (simp_all add: near_def)
  then show ?thesis
    by (simp add: near_def real_sqrt_mult sqrt_power_double [OF pos(1)]
        sqrt_power_double [OF pos(2)])
qed

lemma near_half:
  assumes "0 \<le> x" "near k x y" "k \<le> 4"
  shows "x / 2 \<le> y"
proof -
  let ?lo = "1 - unitRoundoff"
  have "1 / 2 \<le> ?lo ^ 4" by (simp add: unitRoundoff_def power4_eq_xxxx)
  also have "?lo ^ 4 \<le> ?lo ^ k"
    using assms(3) unitRoundoff_bounds by (intro power_decreasing) simp_all
  finally have "x * (1 / 2) \<le> x * ?lo ^ k" using assms(1) by (intro mult_left_mono)
  with assms(2) show ?thesis by (simp add: near_def)
qed

lemma roundEven_ge: "of_int n \<le> y \<Longrightarrow> n \<le> roundEven y"
proof -
  assume "of_int n \<le> y"
  then have "n \<le> \<lfloor>y\<rfloor>" by (simp add: le_floor_iff)
  moreover have "\<lfloor>y\<rfloor> \<le> roundEven y" by (simp add: roundEven_def Let_def)
  ultimately show ?thesis by linarith
qed

lemma toDouble_overflow:
  assumes big: "2 powi 1024 \<le> x"
  shows "toDouble x = None"
proof -
  have "(0::real) < 2 powi 1024" by simp
  with big have pos: "0 < x" by linarith
  then have nz: "x \<noteq> 0" and ax: "\<bar>x\<bar> = x" by simp_all
  let ?f = "\<lfloor>log 2 \<bar>x\<bar>\<rfloor>"
  from binade_bounds [OF nz] have lo: "2 powi ?f \<le> x" and hi: "x < 2 powi (?f + 1)"
    by (simp_all only: ax)
  have f: "1024 \<le> ?f"
  proof (rule ccontr)
    assume "\<not> 1024 \<le> ?f"
    then have "?f + 1 \<le> 1024" by linarith
    then have "(2::real) powi (?f + 1) \<le> 2 powi 1024" by (intro power_int_increasing) simp_all
    with hi big show False by linarith
  qed
  then have b: "binade x = ?f" by (simp add: binade_def)
  let ?u = "(2::real) powi (?f - 52)"
  have upos: "0 < ?u" by simp
  have "(2::real) powi (52 + (?f - 52)) = 2 powi 52 * ?u" by (rule power_int_add) simp
  moreover have "52 + (?f - 52) = ?f" by simp
  ultimately have split: "(2::real) powi ?f = 2 powi 52 * ?u" by (simp only:)
  have "(2::real) powi 52 = of_int (2 ^ 52)" by simp
  moreover have "2 powi 52 \<le> x / ?u"
    using lo upos by (simp only: split pos_le_divide_eq)
  ultimately have "of_int (2 ^ 52) \<le> x / ?u" by (simp only:)
  then have "2 ^ 52 \<le> roundEven (x / ?u)" by (rule roundEven_ge)
  then have "(of_int (2 ^ 52) :: real) \<le> of_int (roundEven (x / ?u))" by (simp only: of_int_le_iff)
  then have "of_int (2 ^ 52) * ?u \<le> of_int (roundEven (x / ?u)) * ?u"
    using upos by (simp only: mult_le_cancel_right_pos)
  moreover have "of_int (2 ^ 52) * ?u = 2 powi ?f" by (simp only: split) simp
  moreover have "(2::real) powi 1024 \<le> 2 powi ?f" using f by (intro power_int_increasing) simp_all
  ultimately have y: "2 powi 1024 \<le> of_int (roundEven (x / ?u)) * ?u" by linarith
  then have "2 powi 1024 \<le> \<bar>of_int (roundEven (x / ?u)) * ?u\<bar>" by linarith
  with nz show ?thesis by (simp add: toDouble_def Let_def b)
qed

lemma powi_half: "(2::real) powi k / 2 = 2 powi (k - 1)"
  by (simp add: power_int_diff)

lemma powi_square: "(2::real) powi k * 2 powi k = 2 powi (2 * k)"
  by (simp add: power_int_add [symmetric])

lemma half_powi_510: "(2::real) powi (- 510) / 2 = 2 powi (- 511)"
  using powi_half [of "- 510"] by simp

lemma square_powi_511: "((2::real) powi (- 511)) * (2 powi (- 511)) = 2 powi (- 1022)"
  using powi_square [of "- 511"] by simp

lemma square_powi_510: "((2::real) powi (- 510)) * (2 powi (- 510)) = 2 powi (- 1020)"
  using powi_square [of "- 510"] by simp

lemma half_powi_1020: "(2::real) powi (- 1020) / 2 = 2 powi (- 1021)"
  using powi_half [of "- 1020"] by simp

lemma half_powi_1022: "(2::real) powi (- 1022) / 2 = 2 powi (- 1023)"
  using powi_half [of "- 1022"] by simp

lemma square_powi_1022: "((2::real) powi (- 1022))\<^sup>2 \<le> 2 powi (- 1023)"
proof -
  have "((2::real) powi (- 1022))\<^sup>2 = 2 powi (- 2044)"
    using powi_square [of "- 1022"] by (simp add: power2_eq_square)
  also have "\<dots> \<le> 2 powi (- 1023)" by (intro power_int_increasing) simp_all
  finally show ?thesis .
qed

subsection \<open>The accuracy of the computed distance\<close>

lemma calculateDistance64_SomeD:
  assumes "calculateDistance64 p q = Some d"
  obtains l m a b s where
    "toDouble (latitude p - latitude q) = Some l" and "toDouble (longitude p - longitude q) = Some m"
    and "toDouble (l * l) = Some a" and "toDouble (m * m) = Some b"
    and "toDouble (a + b) = Some s" and "toDouble (sqrt s) = Some d"
proof (cases "toDouble (latitude p - latitude q)")
  case None
  with assms show ?thesis by (simp add: calculateDistance64_def)
next
  case l: (Some l)
  show ?thesis
  proof (cases "toDouble (longitude p - longitude q)")
    case None
    with assms l show ?thesis by (simp add: calculateDistance64_def)
  next
    case m: (Some m)
    show ?thesis
    proof (cases "toDouble (l * l)")
      case None
      with assms l m show ?thesis by (simp add: calculateDistance64_def)
    next
      case a: (Some a)
      show ?thesis
      proof (cases "toDouble (m * m)")
        case None
        with assms l m a show ?thesis by (simp add: calculateDistance64_def)
      next
        case b: (Some b)
        show ?thesis
        proof (cases "toDouble (a + b)")
          case None
          with assms l m a b show ?thesis by (simp add: calculateDistance64_def)
        next
          case s: (Some s)
          with assms l m a b have "toDouble (sqrt s) = Some d"
            by (simp add: calculateDistance64_def)
          with l m a b s show ?thesis by (rule that)
        qed
      qed
    qed
  qed
qed

lemma roundEven_nonneg: "0 \<le> y \<Longrightarrow> 0 \<le> roundEven y"
  by (simp add: roundEven_def Let_def)

lemma toDouble_nonneg:
  assumes "0 \<le> x" and "toDouble x = Some y"
  shows "0 \<le> y"
proof (cases "x = 0")
  case True
  with assms(2) show ?thesis by (simp add: toDouble_def)
next
  case False
  let ?u = "(2::real) powi (binade x - 52)"
  have "0 \<le> x / ?u" using assms(1) by simp
  then have "0 \<le> roundEven (x / ?u)" by (rule roundEven_nonneg)
  moreover from assms(2) False have "y = of_int (roundEven (x / ?u)) * ?u"
    by (simp add: toDouble_def Let_def split: if_splits)
  ultimately show ?thesis by simp
qed

lemma toDouble_zero_iff_zero: "toDouble 0 = Some y \<Longrightarrow> y = 0"
  by (simp add: toDouble_def)

lemma half_step: "c \<le> x \<Longrightarrow> x / 2 \<le> y \<Longrightarrow> c / 2 = c' \<Longrightarrow> c' \<le> (y::real)"
  by linarith

lemma square_step:
  assumes l: "toDouble x = Some l" and a: "toDouble (l * l) = Some a" and ws: "wellScaled x"
  shows "near 3 (x\<^sup>2) a" and "0 \<le> a" and "x \<noteq> 0 \<Longrightarrow> 2 powi (- 1021) \<le> a"
    and "x = 0 \<Longrightarrow> a = 0"
proof -
  have small: "(2::real) powi (- 1022) \<le> 2 powi (- 510)"
    by (intro power_int_increasing) simp_all
  have nx: "normalOrZero x"
  proof (cases "x = 0")
    case True
    then show ?thesis by (simp only: normalOrZero_def) blast
  next
    case False
    with ws have "2 powi (- 510) \<le> \<bar>x\<bar>" by (simp only: wellScaled_def) blast
    with small have "2 powi (- 1022) \<le> \<bar>x\<bar>" by linarith
    then show ?thesis by (simp only: normalOrZero_def) blast
  qed
  have L: "near 1 \<bar>x\<bar> \<bar>l\<bar>" using l nx by (rule near_round)
  have "near (1 + 1) (\<bar>x\<bar> * \<bar>x\<bar>) (\<bar>l\<bar> * \<bar>l\<bar>)"
    using L by (intro near_mult) simp_all
  then have LL: "near 2 (x\<^sup>2) (l * l)"
    by (simp only: one_add_one power2_eq_square abs_mult_self_eq)
  have "0 \<le> l * l" by (rule zero_le_square)
  then show apos: "0 \<le> a" using a by (rule toDouble_nonneg)
  have nll: "normalOrZero (l * l)"
  proof (cases "x = 0")
    case True
    with l have "l = 0" by (simp add: toDouble_def)
    then show ?thesis by (simp add: normalOrZero_def)
  next
    case False
    with ws have "2 powi (- 510) \<le> \<bar>x\<bar>" by (simp only: wellScaled_def) blast
    moreover have "\<bar>x\<bar> / 2 \<le> \<bar>l\<bar>"
    proof (rule near_half)
      show "near 1 \<bar>x\<bar> \<bar>l\<bar>" by (rule L)
    qed simp_all
    ultimately have "2 powi (- 511) \<le> \<bar>l\<bar>" using half_powi_510 by (rule half_step)
    then have "(2 powi (- 511)) * (2 powi (- 511)) \<le> \<bar>l\<bar> * \<bar>l\<bar>"
      by (intro mult_mono) simp_all
    then have "2 powi (- 1022) \<le> \<bar>l * l\<bar>" by (simp only: square_powi_511 abs_mult)
    then show ?thesis by (simp only: normalOrZero_def) blast
  qed
  have "near 1 \<bar>l * l\<bar> \<bar>a\<bar>" using a nll by (rule near_round)
  with apos \<open>0 \<le> l * l\<close> have "near 1 (l * l) a" by (simp only: abs_of_nonneg)
  with LL have "near (2 + 1) (x\<^sup>2) a" by (rule near_trans)
  then show N: "near 3 (x\<^sup>2) a" by (simp only: numeral_plus_one semiring_norm)
  show "a = 0" if "x = 0"
  proof -
    from that l have "l = 0" by (simp add: toDouble_def)
    with a show ?thesis by (simp add: toDouble_def)
  qed
  show "2 powi (- 1021) \<le> a" if "x \<noteq> 0"
  proof -
    from that ws have "2 powi (- 510) \<le> \<bar>x\<bar>" by (simp only: wellScaled_def) blast
    then have "(2 powi (- 510)) * (2 powi (- 510)) \<le> \<bar>x\<bar> * \<bar>x\<bar>"
      by (intro mult_mono) simp_all
    then have "2 powi (- 1020) \<le> x\<^sup>2" by (simp only: square_powi_510 power2_eq_square abs_mult_self_eq)
    moreover have "x\<^sup>2 / 2 \<le> a"
    proof (rule near_half)
      show "near 3 (x\<^sup>2) a" by (rule N)
    qed simp_all
    ultimately show ?thesis using half_powi_1020 by (rule half_step)
  qed
qed

lemma calculateDistance64_accuracy:
  assumes dist: "calculateDistance64 p q = Some d"
    and lat: "wellScaled (latitude p - latitude q)"
    and lon: "wellScaled (longitude p - longitude q)"
  shows "near 3 (sqrt ((latitude p - latitude q)\<^sup>2 + (longitude p - longitude q)\<^sup>2)) d"
proof -
  let ?x = "latitude p - latitude q" and ?y = "longitude p - longitude q"
  from dist obtain l m a b s where
    l: "toDouble ?x = Some l" and m: "toDouble ?y = Some m"
    and a: "toDouble (l * l) = Some a" and b: "toDouble (m * m) = Some b"
    and s: "toDouble (a + b) = Some s" and d: "toDouble (sqrt s) = Some d"
    by (rule calculateDistance64_SomeD)
  note A = square_step [OF l a lat] and B = square_step [OF m b lon]
  have low: "(2::real) powi (- 1022) \<le> 2 powi (- 1021)"
    by (intro power_int_increasing) simp_all
  have sum: "near 3 (?x\<^sup>2 + ?y\<^sup>2) (a + b)" using A(1) B(1) by (rule near_add)
  have nsum: "normalOrZero (a + b)"
  proof (cases "?x = 0 \<and> ?y = 0")
    case True
    with A(4) B(4) have "a + b = 0" by simp
    then show ?thesis by (simp only: normalOrZero_def) blast
  next
    case False
    then have "?x \<noteq> 0 \<or> ?y \<noteq> 0" by blast
    then have "2 powi (- 1021) \<le> a + b"
    proof
      assume "?x \<noteq> 0"
      with A(3) B(2) show ?thesis by linarith
    next
      assume "?y \<noteq> 0"
      with B(3) A(2) show ?thesis by linarith
    qed
    with low A(2) B(2) have "2 powi (- 1022) \<le> \<bar>a + b\<bar>" by linarith
    then show ?thesis by (simp only: normalOrZero_def) blast
  qed
  have abpos: "0 \<le> a + b" using A(2) B(2) by linarith
  then have spos: "0 \<le> s" using s by (rule toDouble_nonneg)
  have "near 1 \<bar>a + b\<bar> \<bar>s\<bar>" using s nsum by (rule near_round)
  with abpos spos have S1: "near 1 (a + b) s" by (simp only: abs_of_nonneg)
  with sum have "near (3 + 1) (?x\<^sup>2 + ?y\<^sup>2) s" by (rule near_trans)
  moreover have "(3::nat) + 1 = 2 * 2" by simp
  ultimately have S: "near (2 * 2) (?x\<^sup>2 + ?y\<^sup>2) s" by (simp only:)
  then have root: "near 2 (sqrt (?x\<^sup>2 + ?y\<^sup>2)) (sqrt s)" by (rule near_sqrt)
  have nroot: "normalOrZero (sqrt s)"
  proof (cases "a + b = 0")
    case True
    with s have "s = 0" by (simp add: toDouble_def)
    then show ?thesis by (simp add: normalOrZero_def)
  next
    case False
    with nsum have "2 powi (- 1022) \<le> \<bar>a + b\<bar>" by (simp only: normalOrZero_def) blast
    with A(2) B(2) have "2 powi (- 1022) \<le> a + b" by linarith
    moreover have "(a + b) / 2 \<le> s"
    proof (rule near_half)
      show "near 1 (a + b) s" by (rule S1)
    qed (simp_all add: abpos)
    ultimately have "2 powi (- 1023) \<le> s" using half_powi_1022 by (rule half_step)
    with square_powi_1022 have "(2 powi (- 1022))\<^sup>2 \<le> s" by linarith
    then have "2 powi (- 1022) \<le> sqrt s" by (rule real_le_rsqrt)
    moreover have "0 \<le> sqrt s" using spos by simp
    ultimately have "2 powi (- 1022) \<le> \<bar>sqrt s\<bar>" by linarith
    then show ?thesis by (simp only: normalOrZero_def) blast
  qed
  have rpos: "0 \<le> sqrt s" using spos by simp
  then have dpos: "0 \<le> d" using d by (rule toDouble_nonneg)
  have "near 1 \<bar>sqrt s\<bar> \<bar>d\<bar>" using d nroot by (rule near_round)
  with rpos dpos have "near 1 (sqrt s) d" by (simp only: abs_of_nonneg)
  with root have "near (2 + 1) (sqrt (?x\<^sup>2 + ?y\<^sup>2)) d" by (rule near_trans)
  then show ?thesis by (simp only: numeral_plus_one semiring_norm)
qed

subsection \<open>Computed distances of the examples\<close>

lemma toDouble_zero: "toDouble 0 = Some 0"
  by (simp add: toDouble_def)

lemma d_2: "toDouble 2 = Some 2"
  using toDouble_eval [of 1 2 "2 ^ 52"] by (simp add: power_int_minus)
lemma d_3: "toDouble 3 = Some 3"
  using toDouble_eval [of 1 3 "3 * 2 ^ 51"] by (simp add: power_int_minus)
lemma d_4: "toDouble 4 = Some 4"
  using toDouble_eval [of 2 4 "2 ^ 52"] by (simp add: power_int_minus)
lemma d_9: "toDouble 9 = Some 9"
  using toDouble_eval [of 3 9 "9 * 2 ^ 49"] by (simp add: power_int_minus)
lemma d_13: "toDouble 13 = Some 13"
  using toDouble_eval [of 3 13 "13 * 2 ^ 49"] by (simp add: power_int_minus)

lemma d_sqrt13: "toDouble (sqrt 13) = Some (8118979690322419 / 2 ^ 51)"
proof -
  have lo: "(8118979690322419 - 1 / 2) / 2 ^ 51 < sqrt 13"
    by (rule real_less_rsqrt) (simp add: power2_eq_square)
  have hi: "sqrt 13 < (8118979690322419 + 1 / 2) / 2 ^ 51"
    by (rule real_less_lsqrt) (simp_all add: power2_eq_square)
  have b1: "2 \<le> sqrt 13" by (rule real_le_rsqrt) simp
  have b2: "sqrt 13 < 4" by (rule real_less_lsqrt) simp_all
  from toDouble_eval [of 1 "sqrt 13" 8118979690322419] lo hi b1 b2 show ?thesis
    by (simp add: power_int_minus field_simps)
qed

lemma dist_2_3:
  "calculateDistance64 \<lparr>latitude = 2, longitude = 3\<rparr> \<lparr>latitude = 0, longitude = 0\<rparr>
     = Some (8118979690322419 / 2 ^ 51)"
  by (simp add: calculateDistance64_def d_2 d_3 d_4 d_9 d_13 d_sqrt13)

lemma e_x: "toDouble 634063665 = Some 634063665"
  using toDouble_eval [of 29 634063665 5318911532728320] by (simp add: power_int_minus)
lemma e_y: "toDouble 1521752796 = Some 1521752796"
  using toDouble_eval [of 30 1521752796 6382693839273984] by (simp add: power_int_minus)
lemma e_r: "toDouble 1648565529 = Some 1648565529"
  using toDouble_eval [of 30 1648565529 6914584992546816] by (simp add: power_int_minus)
lemma e_a: "toDouble (634063665 * 634063665) = Some 402036731273232256"
  using toDouble_eval [of 58 "634063665 * 634063665" 6281823926144254] by simp
lemma e_b: "toDouble (1521752796 * 1521752796) = Some 2315731572133817856"
  using toDouble_eval [of 61 "1521752796 * 1521752796" 4522913226823863] by simp
lemma e_s: "toDouble (402036731273232256 + 2315731572133817856) = Some 2717768303407050240"
  using toDouble_eval [of 61 "402036731273232256 + 2315731572133817856" 5308141217591895] by simp

lemma e_d: "toDouble (sqrt 2717768303407050240) = Some (6914584992546817 / 2 ^ 22)"
proof -
  let ?s = "2717768303407050240 :: real"
  have lo: "(6914584992546817 - 1 / 2) / 2 ^ 22 < sqrt ?s"
    by (rule real_less_rsqrt) (simp add: power2_eq_square)
  have hi: "sqrt ?s < (6914584992546817 + 1 / 2) / 2 ^ 22"
    by (rule real_less_lsqrt) (simp_all add: power2_eq_square)
  have b1: "2 ^ 30 \<le> sqrt ?s" by (rule real_le_rsqrt) simp
  have b2: "sqrt ?s < 2 ^ 31" by (rule real_less_lsqrt) simp_all
  from toDouble_eval [of 30 "sqrt ?s" 6914584992546817] lo hi b1 b2 show ?thesis
    by (simp add: power_int_minus field_simps)
qed

lemma dist_triple:
  "calculateDistance64 \<lparr>latitude = 634063665, longitude = 1521752796\<rparr>
     \<lparr>latitude = 0, longitude = 0\<rparr> = Some (6914584992546817 / 2 ^ 22)"
  using e_a e_b e_s
  by (simp add: calculateDistance64_def e_x e_y e_d)

lemma d_5: "toDouble 5 = Some 5"
  using toDouble_eval [of 2 5 "5 * 2 ^ 50"] by (simp add: power_int_minus)
lemma d_16: "toDouble 16 = Some 16"
  using toDouble_eval [of 4 16 "2 ^ 52"] by (simp add: power_int_minus)
lemma d_25: "toDouble 25 = Some 25"
  using toDouble_eval [of 4 25 "25 * 2 ^ 48"] by (simp add: power_int_minus)

lemma sqrt_25: "sqrt 25 = 5"
  by (rule real_sqrt_unique) simp_all

lemma dist_3_4:
  "calculateDistance64 \<lparr>latitude = 3, longitude = 4\<rparr> \<lparr>latitude = 0, longitude = 0\<rparr> = Some 5"
  by (simp add: calculateDistance64_def d_3 d_4 d_9 d_16 d_25 sqrt_25 d_5)

lemma d_big: "toDouble (2 ^ 600) = Some (2 ^ 600)"
  using toDouble_eval [of 600 "2 ^ 600" "2 ^ 52"] by (simp add: power_int_add [symmetric])

lemma d_big_square: "toDouble (2 ^ 600 * 2 ^ 600) = None"
proof -
  have "(2::real) ^ 600 * 2 ^ 600 = 2 powi 1200" by (simp add: power_add [symmetric])
  moreover have "(2::real) powi 1024 \<le> 2 powi 1200" by (intro power_int_increasing) simp_all
  ultimately have "2 powi 1024 \<le> (2::real) ^ 600 * 2 ^ 600" by (simp only:)
  then show ?thesis by (rule toDouble_overflow)
qed

lemma dist_big:
  "calculateDistance64 \<lparr>latitude = hugeCoordinate, longitude = 0\<rparr> \<lparr>latitude = 0, longitude = 0\<rparr> = None"
  unfolding hugeCoordinate_def
  using d_big d_big_square by (simp add: calculateDistance64_def toDouble_zero)

lemma d_r13: "toDouble (8118979690322419 / 2 ^ 51) = Some (8118979690322419 / 2 ^ 51)"
  using toDouble_eval [of 1 "8118979690322419 / 2 ^ 51" 8118979690322419]
  by (simp add: power_int_minus)

subsection \<open>Membership is decided by the computed distance\<close>

text \<open>
  Claim C7, amended. The claim compares the Euclidean distance with the radius. The
  program compares the distance it computes in binary64 arithmetic, and the two differ
  (the two examples after the theorem). What holds is this.
  \<open>isPointInCircle64 p c r\<close> is true exactly when the distance that
  \<open>calculateDistance64\<close> computes from \<open>p\<close> to the center \<open>c\<close> is finite and at most \<open>r\<close>.
  The boundary is inside with respect to the computed distance: a point whose computed
  distance is exactly \<open>r\<close> is in the circle, a point whose computed distance is greater
  than \<open>r\<close>, or not finite, is not. When each of the two coordinate differences is zero
  or at least \<open>2 powi (- 510)\<close> in magnitude, the computed distance is the Euclidean
  distance \<open>sqrt ((\<Delta>lat)\<^sup>2 + (\<Delta>lon)\<^sup>2)\<close> up to three rounding errors, so a point whose
  Euclidean distance times \<open>(1 + unitRoundoff) ^ 3\<close> is at most \<open>r\<close> is inside when the
  computed distance is finite, and a point whose Euclidean distance times
  \<open>(1 - unitRoundoff) ^ 3\<close> is greater than \<open>r\<close> is outside. For a point in between,
  at Euclidean distance \<open>r\<close> or next to it, the Euclidean distance does not decide.
\<close>

theorem isPointInCircle64_computed_distance:
  fixes p :: "'a GeoPoint_scheme" and c :: "real \<times> real" and r :: real
  defines "computed \<equiv> calculateDistance64 p \<lparr>latitude = fst c, longitude = snd c\<rparr>"
    and "euclidean \<equiv> sqrt ((latitude p - fst c)\<^sup>2 + (longitude p - snd c)\<^sup>2)"
  shows "(isPointInCircle64 p c r \<longleftrightarrow> (\<exists>d. computed = Some d \<and> d \<le> r))
       \<and> (computed = Some r \<longrightarrow> isPointInCircle64 p c r)
       \<and> (\<forall>d. computed = Some d \<and> r < d \<longrightarrow> \<not> isPointInCircle64 p c r)
       \<and> (computed = None \<longrightarrow> \<not> isPointInCircle64 p c r)
       \<and> (wellScaled (latitude p - fst c) \<and> wellScaled (longitude p - snd c) \<longrightarrow>
            (\<forall>d. computed = Some d \<longrightarrow> near 3 euclidean d)
            \<and> (computed \<noteq> None \<and> euclidean * (1 + unitRoundoff) ^ 3 \<le> r
                 \<longrightarrow> isPointInCircle64 p c r)
            \<and> (r < euclidean * (1 - unitRoundoff) ^ 3 \<longrightarrow> \<not> isPointInCircle64 p c r))"
proof -
  have mem: "isPointInCircle64 p c r \<longleftrightarrow> (\<exists>d. computed = Some d \<and> d \<le> r)"
    by (cases computed) (simp_all add: isPointInCircle64_def computed_def)
  have acc: "near 3 euclidean d"
    if "wellScaled (latitude p - fst c)" "wellScaled (longitude p - snd c)" "computed = Some d" for d
    using calculateDistance64_accuracy [of p "\<lparr>latitude = fst c, longitude = snd c\<rparr>" d] that
    by (simp add: computed_def euclidean_def)
  have inside: "isPointInCircle64 p c r"
    if ws: "wellScaled (latitude p - fst c)" "wellScaled (longitude p - snd c)"
      and some: "computed \<noteq> None" and le: "euclidean * (1 + unitRoundoff) ^ 3 \<le> r"
  proof -
    from some obtain d where d: "computed = Some d" by blast
    with ws have "near 3 euclidean d" by (rule acc)
    then have "d \<le> euclidean * (1 + unitRoundoff) ^ 3" by (simp add: near_def)
    with le have "d \<le> r" by linarith
    with d mem show ?thesis by blast
  qed
  have outside: "\<not> isPointInCircle64 p c r"
    if ws: "wellScaled (latitude p - fst c)" "wellScaled (longitude p - snd c)"
      and gt: "r < euclidean * (1 - unitRoundoff) ^ 3"
  proof
    assume "isPointInCircle64 p c r"
    with mem obtain d where d: "computed = Some d" and le: "d \<le> r" by blast
    from ws d have "near 3 euclidean d" by (rule acc)
    then have "euclidean * (1 - unitRoundoff) ^ 3 \<le> d" by (simp add: near_def)
    with le gt show False by linarith
  qed
  from mem acc inside outside show ?thesis by auto
qed

theorem isPointInCircle64_computed_distance_witness:
  "calculateDistance64 \<lparr>latitude = 3, longitude = 4\<rparr> \<lparr>latitude = 0, longitude = 0\<rparr> = Some 5
   \<and> isPointInCircle64 \<lparr>latitude = 3, longitude = 4\<rparr> (0, 0) 5
   \<and> \<not> isPointInCircle64 \<lparr>latitude = 3, longitude = 4\<rparr> (0, 0) 4
   \<and> wellScaled (3 - 0) \<and> wellScaled (4 - 0)
   \<and> near 3 (sqrt ((3 - 0)\<^sup>2 + (4 - 0)\<^sup>2)) 5
   \<and> sqrt ((3 - 0)\<^sup>2 + (4 - 0)\<^sup>2) * (1 + unitRoundoff) ^ 3 \<le> 6
   \<and> isPointInCircle64 \<lparr>latitude = 3, longitude = 4\<rparr> (0, 0) 6
   \<and> 4 < sqrt ((3 - 0)\<^sup>2 + (4 - 0)\<^sup>2) * (1 - unitRoundoff) ^ 3
   \<and> calculateDistance64 \<lparr>latitude = hugeCoordinate, longitude = 0\<rparr> \<lparr>latitude = 0, longitude = 0\<rparr> = None
   \<and> \<not> isPointInCircle64 \<lparr>latitude = hugeCoordinate, longitude = 0\<rparr> (0, 0) 1"
proof -
  have five: "sqrt ((3 - 0)\<^sup>2 + (4 - 0)\<^sup>2) = (5::real)"
    by (rule real_sqrt_unique) simp_all
  have ws: "wellScaled (3 - 0)" "wellScaled (4 - 0)"
    by (simp_all add: wellScaled_def power_int_minus field_simps)
  have hi: "(5::real) * (1 + unitRoundoff) ^ 3 \<le> 6"
    by (simp add: unitRoundoff_def power3_eq_cube field_simps)
  have lo: "(4::real) < 5 * (1 - unitRoundoff) ^ 3"
    by (simp add: unitRoundoff_def power3_eq_cube field_simps)
  from isPointInCircle64_computed_distance [of "\<lparr>latitude = 3, longitude = 4\<rparr>" "(0, 0)" 5]
  have at5: "isPointInCircle64 \<lparr>latitude = 3, longitude = 4\<rparr> (0, 0) 5
      \<and> near 3 (sqrt ((3 - 0)\<^sup>2 + (4 - 0)\<^sup>2)) 5"
    using ws by (simp add: dist_3_4)
  from isPointInCircle64_computed_distance [of "\<lparr>latitude = 3, longitude = 4\<rparr>" "(0, 0)" 4]
  have at4: "\<not> isPointInCircle64 \<lparr>latitude = 3, longitude = 4\<rparr> (0, 0) 4"
    by (simp add: dist_3_4)
  from isPointInCircle64_computed_distance [of "\<lparr>latitude = 3, longitude = 4\<rparr>" "(0, 0)" 6]
  have at6: "isPointInCircle64 \<lparr>latitude = 3, longitude = 4\<rparr> (0, 0) 6"
    by (simp add: dist_3_4)
  from isPointInCircle64_computed_distance [of "\<lparr>latitude = hugeCoordinate, longitude = 0\<rparr>" "(0, 0)" 1]
  have big: "\<not> isPointInCircle64 \<lparr>latitude = hugeCoordinate, longitude = 0\<rparr> (0, 0) 1"
    by (simp only: fst_conv snd_conv dist_big) simp
  from dist_3_4 at5 at4 ws at6 big dist_big show ?thesis
    by (simp only: five hi lo) simp
qed

text \<open>
  Claim C7 as it is stated, with the Euclidean distance, fails in both directions, for
  points, centers and radii that are binary64 values. The point \<open>(634063665, 1521752796)\<close>
  is at Euclidean distance exactly \<open>1648565529\<close> from the origin, and the test with that
  radius is false: the sum of the two squares is rounded, and the root computed from it
  is \<open>6914584992546817 / 2 ^ 22\<close>, above the radius. The point \<open>(2, 3)\<close> is farther from
  the origin than \<open>8118979690322419 / 2 ^ 51\<close>, and the test with that radius is true:
  the radius is the binary64 value nearest to \<open>sqrt 13\<close>, which is the computed distance.
\<close>

theorem circle_boundary_not_euclidean:
  "isDouble 634063665 \<and> isDouble 1521752796 \<and> isDouble 1648565529 \<and> isDouble 0
   \<and> sqrt ((634063665 - 0)\<^sup>2 + (1521752796 - 0)\<^sup>2) = (1648565529 :: real)
   \<and> \<not> isPointInCircle64 \<lparr>latitude = 634063665, longitude = 1521752796\<rparr> (0, 0) 1648565529
   \<and> isDouble 2 \<and> isDouble 3 \<and> isDouble (8118979690322419 / 2 ^ 51)
   \<and> 8118979690322419 / 2 ^ 51 < sqrt ((2 - 0)\<^sup>2 + (3 - 0)\<^sup>2 :: real)
   \<and> isPointInCircle64 \<lparr>latitude = 2, longitude = 3\<rparr> (0, 0) (8118979690322419 / 2 ^ 51)"
proof -
  have doubles: "isDouble 634063665" "isDouble 1521752796" "isDouble 1648565529" "isDouble 0"
    "isDouble 2" "isDouble 3" "isDouble (8118979690322419 / 2 ^ 51)"
    unfolding isDouble_def by (rule e_x e_y e_r toDouble_zero d_2 d_3 d_r13)+
  have exact: "sqrt ((634063665 - 0)\<^sup>2 + (1521752796 - 0)\<^sup>2) = (1648565529 :: real)"
    by (rule real_sqrt_unique) simp_all
  have out: "\<not> isPointInCircle64 \<lparr>latitude = 634063665, longitude = 1521752796\<rparr> (0, 0) 1648565529"
    by (simp add: isPointInCircle64_def dist_triple)
  have farther: "8118979690322419 / 2 ^ 51 < sqrt ((2 - 0)\<^sup>2 + (3 - 0)\<^sup>2 :: real)"
    by (rule real_less_rsqrt) (simp add: power2_eq_square)
  have inside: "isPointInCircle64 \<lparr>latitude = 2, longitude = 3\<rparr> (0, 0) (8118979690322419 / 2 ^ 51)"
    by (simp add: isPointInCircle64_def dist_2_3)
  from doubles exact out farther inside show ?thesis by blast
qed

section \<open>Resolving the current zone\<close>

lemma findCurrentZone_find:
  "findCurrentZone zones p = map_option name (find (isPointInZone p) zones)"
  by (induction zones) simp_all

lemma findCurrentZone_None_iff:
  "findCurrentZone zones p = None \<longleftrightarrow> (\<forall>z \<in> set zones. \<not> isPointInZone p z)"
  by (induction zones) simp_all

lemma findCurrentZone_append:
  "\<forall>z \<in> set pre. \<not> isPointInZone p z
     \<Longrightarrow> findCurrentZone (pre @ rest) p = findCurrentZone rest p"
  by (induction pre) simp_all

lemma track_result_zone:
  "tr_currentZone (fst (snd (trackVehicleLocation zones s vid lat lon ts))) =
     findCurrentZone zones \<lparr>latitude = lat, longitude = lon\<rparr>"
  by (simp add: trackVehicleLocation_def Let_def)

text \<open>
  Claim C3. The zone that \<open>trackVehicleLocation\<close> resolves for a point is
  \<open>findCurrentZone\<close> of the catalog: the name of the first zone, in the order of the
  catalog, whose test \<open>isPointInZone\<close> holds for the point, and none exactly when no zone
  of the catalog contains the point. Where zones overlap, the earliest in the catalog wins:
  if no zone before \<open>z\<close> contains the point and \<open>z\<close> does, the result is the name of \<open>z\<close>,
  whatever follows \<open>z\<close>.
\<close>

theorem findCurrentZone_first_match:
  fixes p :: "'a GeoPoint_scheme"
  shows "tr_currentZone (fst (snd (trackVehicleLocation zones s vid lat lon ts)))
           = findCurrentZone zones \<lparr>latitude = lat, longitude = lon\<rparr>
       \<and> findCurrentZone zones p = map_option name (find (isPointInZone p) zones)
       \<and> (findCurrentZone zones p = None \<longleftrightarrow> (\<forall>z \<in> set zones. \<not> isPointInZone p z))
       \<and> (\<forall>pre z post. zones = pre @ z # post \<and> (\<forall>z' \<in> set pre. \<not> isPointInZone p z')
              \<and> isPointInZone p z \<longrightarrow> findCurrentZone zones p = Some (name z))"
proof (intro conjI allI impI)
  show "tr_currentZone (fst (snd (trackVehicleLocation zones s vid lat lon ts)))
           = findCurrentZone zones \<lparr>latitude = lat, longitude = lon\<rparr>"
    by (rule track_result_zone)
next
  show "findCurrentZone zones p = map_option name (find (isPointInZone p) zones)"
    by (rule findCurrentZone_find)
next
  show "findCurrentZone zones p = None \<longleftrightarrow> (\<forall>z \<in> set zones. \<not> isPointInZone p z)"
    by (rule findCurrentZone_None_iff)
next
  fix pre z post
  assume h: "zones = pre @ z # post \<and> (\<forall>z' \<in> set pre. \<not> isPointInZone p z')
               \<and> isPointInZone p z"
  then have "findCurrentZone zones p = findCurrentZone (z # post) p"
    by (simp add: findCurrentZone_append)
  with h show "findCurrentZone zones p = Some (name z)" by simp
qed

theorem findCurrentZone_first_match_witness:
  "findCurrentZone [zoneFar, zoneA, zoneB] \<lparr>latitude = 1, longitude = 0\<rparr> = Some ''A''
   \<and> isPointInZone \<lparr>latitude = 1, longitude = 0\<rparr> zoneB
   \<and> findCurrentZone [zoneFar, zoneA, zoneB] \<lparr>latitude = 5, longitude = 5\<rparr> = None"
proof -
  let ?p = "\<lparr>latitude = 1, longitude = 0\<rparr>"
  let ?q = "\<lparr>latitude = 5, longitude = 5\<rparr>"
  have first: "[zoneFar, zoneA, zoneB] = [zoneFar] @ zoneA # [zoneB]
      \<and> (\<forall>z' \<in> set [zoneFar]. \<not> isPointInZone ?p z') \<and> isPointInZone ?p zoneA"
    by (simp add: zone_facts)
  have none: "\<forall>z \<in> set [zoneFar, zoneA, zoneB]. \<not> isPointInZone ?q z"
    by (simp add: zone_facts)
  from findCurrentZone_first_match [of "[zoneFar, zoneA, zoneB]" Map.empty "''v''" 1 0 0 ?p] first
  have "findCurrentZone [zoneFar, zoneA, zoneB] ?p = Some (name zoneA)"
    by blast
  moreover
  from findCurrentZone_first_match [of "[zoneFar, zoneA, zoneB]" Map.empty "''v''" 5 5 0 ?q] none
  have "findCurrentZone [zoneFar, zoneA, zoneB] ?q = None"
    by blast
  ultimately show ?thesis
    by (simp add: zone_facts zoneA_def)
qed

section \<open>The tracker: helper lemmas\<close>

lemma slice_last_id: "length xs \<le> n \<Longrightarrow> slice_last n xs = xs"
  by (simp add: slice_last_def)

lemma length_slice_last: "length (slice_last n xs) = min n (length xs)"
  by (simp add: slice_last_def)

lemma slice_last_append_short:
  assumes "length ys \<le> n"
  shows "slice_last n (xs @ ys) = slice_last (n - length ys) xs @ ys"
proof -
  from assms have "length xs + length ys - n = length xs - (n - length ys)" by arith
  with assms show ?thesis by (simp add: slice_last_def)
qed



lemma zoneChange_same: "zoneChange vid z z ts = ([], False, None, [])"
  by (simp add: zoneChange_def)

lemma zoneChange_enter:
  "zoneChange vid None (Some z) ts =
     ([\<lparr>event_type = Enter, event_zone = z, event_timestamp = ts\<rparr>], True,
      Some \<lparr>event_type = Enter, event_zone = z, event_timestamp = ts\<rparr>, [EnteredLog vid z])"
  by (simp add: zoneChange_def Let_def)

lemma zoneChange_exit:
  "zoneChange vid (Some z) None ts =
     ([\<lparr>event_type = Exit, event_zone = z, event_timestamp = ts\<rparr>], True,
      Some \<lparr>event_type = Exit, event_zone = z, event_timestamp = ts\<rparr>, [ExitedLog vid z])"
  by (simp add: zoneChange_def Let_def)

lemma zoneChange_switch:
  "z1 \<noteq> z2 \<Longrightarrow> zoneChange vid (Some z1) (Some z2) ts =
     ([\<lparr>event_type = Exit, event_zone = z1, event_timestamp = ts\<rparr>,
       \<lparr>event_type = Enter, event_zone = z2, event_timestamp = ts\<rparr>], True,
      Some \<lparr>event_type = Enter, event_zone = z2, event_timestamp = ts\<rparr>,
      [ExitedAndEnteredLog vid z1 z2])"
  by (simp add: zoneChange_def Let_def)

lemma zoneChange_triggered: "fst (snd (zoneChange vid prev new ts)) = (prev \<noteq> new)"
  by (cases prev; cases new) (simp_all add: zoneChange_def Let_def)

lemma track_store:
  "fst (trackVehicleLocation zones s vid lat lon ts) =
     s(vid \<mapsto> \<lparr>location = \<lparr>latitude = lat, longitude = lon, vehicleId = vid, timestamp = ts,
                   currentZone = findCurrentZone zones \<lparr>latitude = lat, longitude = lon\<rparr>\<rparr>,
                 events = slice_last MAX_EVENTS_PER_VEHICLE
                            (eventsOf s vid @ pushed zones s vid lat lon ts)\<rparr>)"
proof (cases "s vid")
  case None
  then show ?thesis
    by (simp add: trackVehicleLocation_def Let_def eventsOf_def pushed_def slice_last_id)
next
  case (Some d)
  obtain l es where d: "d = \<lparr>location = l, events = es\<rparr>" by (cases d) simp
  from Some show ?thesis
    by (simp add: d trackVehicleLocation_def Let_def eventsOf_def pushed_def slice_last_id)
qed

lemma track_result:
  "fst (snd (trackVehicleLocation zones s vid lat lon ts)) =
     \<lparr>tr_vehicleId = vid, tr_latitude = lat, tr_longitude = lon,
      tr_currentZone = findCurrentZone zones \<lparr>latitude = lat, longitude = lon\<rparr>,
      eventTriggered =
        (previousZone (s vid) \<noteq> findCurrentZone zones \<lparr>latitude = lat, longitude = lon\<rparr>),
      event = fst (snd (snd (zoneChange vid (previousZone (s vid))
                (findCurrentZone zones \<lparr>latitude = lat, longitude = lon\<rparr>) ts)))\<rparr>"
  by (simp add: trackVehicleLocation_def Let_def zoneChange_triggered)

lemma track_log:
  "snd (snd (trackVehicleLocation zones s vid lat lon ts)) =
     (case s vid of
        None \<Rightarrow> []
      | Some d \<Rightarrow>
          if calculateDistance (location d) \<lparr>latitude = lat, longitude = lon\<rparr> > MAX_REALISTIC_JUMP
          then [AnomalousMovementWarning vid (latitude (location d)) (longitude (location d)) lat lon]
          else [])
     @ snd (snd (snd (zoneChange vid (previousZone (s vid))
                (findCurrentZone zones \<lparr>latitude = lat, longitude = lon\<rparr>) ts)))"
  by (cases "s vid")
     (simp_all add: trackVehicleLocation_def Let_def isAnomalousMovement_def)

lemma eventsOf_track:
  "eventsOf (fst (trackVehicleLocation zones s vid lat lon ts)) v =
     (if v = vid
      then slice_last MAX_EVENTS_PER_VEHICLE (eventsOf s vid @ pushed zones s vid lat lon ts)
      else eventsOf s v)"
  by (simp add: track_store eventsOf_def)

lemma previousZone_stored:
  "s vid = Some d \<Longrightarrow> currentZone (location d) = Some z \<Longrightarrow> z \<noteq> []
     \<Longrightarrow> previousZone (s vid) = Some z"
  by (simp add: previousZone_def orNull_def)

lemma previousZone_absent: "s vid = None \<Longrightarrow> previousZone (s vid) = None"
  by (simp add: previousZone_def)

lemma previousZone_outside:
  "s vid = Some d \<Longrightarrow> currentZone (location d) = None \<Longrightarrow> previousZone (s vid) = None"
  by (simp add: previousZone_def orNull_def)

lemma find_A: "findCurrentZone [zoneA, zoneFar] \<lparr>latitude = 1, longitude = 0\<rparr> = Some ''A''"
  by (simp add: zone_facts) (simp add: zoneA_def)

lemma find_Far: "findCurrentZone [zoneA, zoneFar] \<lparr>latitude = 10, longitude = 10\<rparr> = Some ''Far''"
  by (simp add: zone_facts) (simp add: zoneFar_def)

lemma find_none: "findCurrentZone [zoneA, zoneFar] \<lparr>latitude = 5, longitude = 5\<rparr> = None"
  by (simp add: zone_facts)

lemma storeInA_eq:
  "storeInA = [''t1'' \<mapsto>
     \<lparr>location = \<lparr>latitude = 1, longitude = 0, vehicleId = ''t1'', timestamp = 100,
                   currentZone = Some ''A''\<rparr>,
      events = [\<lparr>event_type = Enter, event_zone = ''A'', event_timestamp = 100\<rparr>]\<rparr>]"
  by (simp add: storeInA_def track_store find_A eventsOf_def pushed_def previousZone_def
      zoneChange_enter slice_last_id MAX_EVENTS_PER_VEHICLE_def del: findCurrentZone.simps)

section \<open>Zone transitions of one call\<close>

text \<open>
  From one zone to another. \<open>previousZone (s vid)\<close> is the previous zone as the call reads it from the
  store (\<open>previousData?.location.currentZone || null\<close>): the stored zone of the vehicle,
  an empty stored name being read as none. When it is a zone \<open>Z1\<close>, which is then the
  stored zone, the zone resolved for the new point is a zone \<open>Z2\<close>, and the two differ,
  the call pushes exactly \<open>Exit Z1\<close> and then \<open>Enter Z2\<close>, both with the timestamp of the
  call: the stored history is the last 50 of the old history followed by these two, it
  always ends with them, and nothing is evicted while there is room. The result has
  \<open>eventTriggered\<close> set and reports the \<open>Enter Z2\<close> event, not the exit.
\<close>

lemma track_exit_then_enter:
  fixes ts :: real
  assumes prev: "previousZone (s vid) = Some Z1"
    and new: "findCurrentZone zones \<lparr>latitude = lat, longitude = lon\<rparr> = Some Z2"
    and diff: "Z1 \<noteq> Z2"
  defines "out \<equiv> trackVehicleLocation zones s vid lat lon ts"
    and "exitEvent \<equiv> \<lparr>event_type = Exit, event_zone = Z1, event_timestamp = ts\<rparr>"
    and "enterEvent \<equiv> \<lparr>event_type = Enter, event_zone = Z2, event_timestamp = ts\<rparr>"
  shows "(\<exists>d. s vid = Some d \<and> currentZone (location d) = Some Z1)
       \<and> eventsOf (fst out) vid =
           slice_last MAX_EVENTS_PER_VEHICLE (eventsOf s vid @ [exitEvent, enterEvent])
       \<and> (\<exists>older. eventsOf (fst out) vid = older @ [exitEvent, enterEvent])
       \<and> (length (eventsOf s vid) + 2 \<le> MAX_EVENTS_PER_VEHICLE
            \<longrightarrow> eventsOf (fst out) vid = eventsOf s vid @ [exitEvent, enterEvent])
       \<and> eventTriggered (fst (snd out))
       \<and> event (fst (snd out)) = Some enterEvent"
proof -
  from prev have stored: "\<exists>d. s vid = Some d \<and> currentZone (location d) = Some Z1"
    by (auto simp add: previousZone_def orNull_def split: option.splits if_splits)
  have change: "zoneChange vid (Some Z1) (Some Z2) ts
                = ([exitEvent, enterEvent], True, Some enterEvent, [ExitedAndEnteredLog vid Z1 Z2])"
    using diff by (simp add: zoneChange_switch exitEvent_def enterEvent_def)
  have hist: "eventsOf (fst out) vid =
           slice_last MAX_EVENTS_PER_VEHICLE (eventsOf s vid @ [exitEvent, enterEvent])"
    by (simp add: out_def eventsOf_track pushed_def prev new change)
  have tail: "\<exists>older. eventsOf (fst out) vid = older @ [exitEvent, enterEvent]"
    unfolding hist
    by (simp add: slice_last_append_short MAX_EVENTS_PER_VEHICLE_def)
  have room: "length (eventsOf s vid) + 2 \<le> MAX_EVENTS_PER_VEHICLE
            \<longrightarrow> eventsOf (fst out) vid = eventsOf s vid @ [exitEvent, enterEvent]"
    unfolding hist by (simp add: slice_last_id)
  have res: "eventTriggered (fst (snd out)) \<and> event (fst (snd out)) = Some enterEvent"
    using diff by (simp add: out_def track_result change prev new)
  from stored hist tail room res show ?thesis by blast
qed

lemma track_exit_then_enter_witness:
  "eventsOf (fst (trackVehicleLocation [zoneA, zoneFar] storeInA ''t1'' 10 10 200)) ''t1'' =
     [\<lparr>event_type = Enter, event_zone = ''A'', event_timestamp = 100\<rparr>,
      \<lparr>event_type = Exit, event_zone = ''A'', event_timestamp = 200\<rparr>,
      \<lparr>event_type = Enter, event_zone = ''Far'', event_timestamp = 200\<rparr>]
   \<and> eventTriggered (fst (snd (trackVehicleLocation [zoneA, zoneFar] storeInA ''t1'' 10 10 200)))
   \<and> event (fst (snd (trackVehicleLocation [zoneA, zoneFar] storeInA ''t1'' 10 10 200))) =
       Some \<lparr>event_type = Enter, event_zone = ''Far'', event_timestamp = 200\<rparr>"
proof -
  have prev: "previousZone (storeInA ''t1'') = Some ''A''"
    by (simp add: storeInA_eq previousZone_def orNull_def)
  have old: "eventsOf storeInA ''t1'' =
               [\<lparr>event_type = Enter, event_zone = ''A'', event_timestamp = 100\<rparr>]"
    by (simp add: storeInA_eq eventsOf_def)
  have diff: "''A'' \<noteq> ''Far''" by simp
  from track_exit_then_enter [where s = storeInA and vid = "''t1''" and ?Z1.0 = "''A''" and zones = "[zoneA, zoneFar]"
      and lat = 10 and lon = 10 and ?Z2.0 = "''Far''" and ts = 200]
    prev find_Far
  show ?thesis
    by (simp add: old slice_last_id MAX_EVENTS_PER_VEHICLE_def del: findCurrentZone.simps)
qed

text \<open>
  The cases of one call. With \<open>prev\<close> the previous zone as the call reads it from the store (none for
  a vehicle that is not in the store, the stored zone when that is none or a non-empty
  name) and \<open>new\<close> the zone resolved for the new point:
  \<open>eventTriggered\<close> holds exactly when \<open>new\<close> differs from \<open>prev\<close>; when they are equal,
  both none included, no event is reported and the history gets no new event; from none
  to a zone \<open>Z\<close> the one event pushed and reported is \<open>Enter Z\<close>, and from a zone \<open>Z\<close> to
  none it is \<open>Exit Z\<close>.
\<close>

lemma track_event_iff_zone_changed:
  fixes s :: VehicleStore and vid :: string and zones :: "Zone list" and lat lon ts :: real
  defines "prev \<equiv> previousZone (s vid)"
    and "new \<equiv> findCurrentZone zones \<lparr>latitude = lat, longitude = lon\<rparr>"
    and "out \<equiv> trackVehicleLocation zones s vid lat lon ts"
  shows "(eventTriggered (fst (snd out)) \<longleftrightarrow> new \<noteq> prev)
       \<and> (s vid = None \<longrightarrow> prev = None)
       \<and> (\<forall>d. s vid = Some d \<and> currentZone (location d) = None \<longrightarrow> prev = None)
       \<and> (\<forall>d Z. s vid = Some d \<and> currentZone (location d) = Some Z \<and> Z \<noteq> []
              \<longrightarrow> prev = Some Z)
       \<and> (new = prev \<longrightarrow>
             event (fst (snd out)) = None
           \<and> eventsOf (fst out) vid = slice_last MAX_EVENTS_PER_VEHICLE (eventsOf s vid)
           \<and> (length (eventsOf s vid) \<le> MAX_EVENTS_PER_VEHICLE
                \<longrightarrow> eventsOf (fst out) vid = eventsOf s vid))
       \<and> (\<forall>Z. prev = None \<and> new = Some Z \<longrightarrow>
             event (fst (snd out)) = Some \<lparr>event_type = Enter, event_zone = Z, event_timestamp = ts\<rparr>
           \<and> eventsOf (fst out) vid =
               slice_last MAX_EVENTS_PER_VEHICLE
                 (eventsOf s vid @ [\<lparr>event_type = Enter, event_zone = Z, event_timestamp = ts\<rparr>]))
       \<and> (\<forall>Z. prev = Some Z \<and> new = None \<longrightarrow>
             event (fst (snd out)) = Some \<lparr>event_type = Exit, event_zone = Z, event_timestamp = ts\<rparr>
           \<and> eventsOf (fst out) vid =
               slice_last MAX_EVENTS_PER_VEHICLE
                 (eventsOf s vid @ [\<lparr>event_type = Exit, event_zone = Z, event_timestamp = ts\<rparr>]))"
proof (intro conjI allI impI)
  show "eventTriggered (fst (snd out)) \<longleftrightarrow> new \<noteq> prev"
    by (auto simp add: out_def track_result prev_def new_def)
next
  assume "s vid = None"
  then show "prev = None" by (simp add: prev_def previousZone_def)
next
  fix d
  assume "s vid = Some d \<and> currentZone (location d) = None"
  then show "prev = None" by (simp add: prev_def previousZone_def orNull_def)
next
  fix d Z
  assume "s vid = Some d \<and> currentZone (location d) = Some Z \<and> Z \<noteq> []"
  then show "prev = Some Z" by (simp add: prev_def previousZone_def orNull_def)
next
  assume same: "new = prev"
  then have change: "zoneChange vid (previousZone (s vid))
      (findCurrentZone zones \<lparr>latitude = lat, longitude = lon\<rparr>) ts = ([], False, None, [])"
    by (simp add: prev_def new_def zoneChange_same)
  show "event (fst (snd out)) = None"
    by (simp add: out_def track_result change)
  show hist: "eventsOf (fst out) vid = slice_last MAX_EVENTS_PER_VEHICLE (eventsOf s vid)"
    by (simp add: out_def eventsOf_track pushed_def change)
  assume "length (eventsOf s vid) \<le> MAX_EVENTS_PER_VEHICLE"
  then show "eventsOf (fst out) vid = eventsOf s vid"
    by (simp add: hist slice_last_id)
next
  fix Z
  assume h: "prev = None \<and> new = Some Z"
  then have change: "zoneChange vid (previousZone (s vid))
      (findCurrentZone zones \<lparr>latitude = lat, longitude = lon\<rparr>) ts =
      zoneChange vid None (Some Z) ts"
    by (simp add: prev_def new_def)
  show "event (fst (snd out)) =
      Some \<lparr>event_type = Enter, event_zone = Z, event_timestamp = ts\<rparr>"
    by (simp add: out_def track_result change zoneChange_enter)
  show "eventsOf (fst out) vid = slice_last MAX_EVENTS_PER_VEHICLE
      (eventsOf s vid @ [\<lparr>event_type = Enter, event_zone = Z, event_timestamp = ts\<rparr>])"
    by (simp add: out_def eventsOf_track pushed_def change zoneChange_enter)
next
  fix Z
  assume h: "prev = Some Z \<and> new = None"
  then have change: "zoneChange vid (previousZone (s vid))
      (findCurrentZone zones \<lparr>latitude = lat, longitude = lon\<rparr>) ts =
      zoneChange vid (Some Z) None ts"
    by (simp add: prev_def new_def)
  show "event (fst (snd out)) =
      Some \<lparr>event_type = Exit, event_zone = Z, event_timestamp = ts\<rparr>"
    by (simp add: out_def track_result change zoneChange_exit)
  show "eventsOf (fst out) vid = slice_last MAX_EVENTS_PER_VEHICLE
      (eventsOf s vid @ [\<lparr>event_type = Exit, event_zone = Z, event_timestamp = ts\<rparr>])"
    by (simp add: out_def eventsOf_track pushed_def change zoneChange_exit)
qed

lemma track_event_iff_zone_changed_witness:
  "\<not> eventTriggered (fst (snd (trackVehicleLocation [zoneA, zoneFar] storeInA ''t1'' 1 0 200)))
   \<and> eventsOf (fst (trackVehicleLocation [zoneA, zoneFar] storeInA ''t1'' 1 0 200)) ''t1'' =
       [\<lparr>event_type = Enter, event_zone = ''A'', event_timestamp = 100\<rparr>]
   \<and> eventTriggered (fst (snd (trackVehicleLocation [zoneA, zoneFar] Map.empty ''t2'' 1 0 300)))
   \<and> event (fst (snd (trackVehicleLocation [zoneA, zoneFar] Map.empty ''t2'' 1 0 300))) =
       Some \<lparr>event_type = Enter, event_zone = ''A'', event_timestamp = 300\<rparr>
   \<and> eventsOf (fst (trackVehicleLocation [zoneA, zoneFar] storeInA ''t1'' 5 5 400)) ''t1'' =
       [\<lparr>event_type = Enter, event_zone = ''A'', event_timestamp = 100\<rparr>,
        \<lparr>event_type = Exit, event_zone = ''A'', event_timestamp = 400\<rparr>]
   \<and> event (fst (snd (trackVehicleLocation [zoneA, zoneFar] storeInA ''t1'' 5 5 400))) =
       Some \<lparr>event_type = Exit, event_zone = ''A'', event_timestamp = 400\<rparr>"
proof -
  have prev: "previousZone (storeInA ''t1'') = Some ''A''"
    by (simp add: storeInA_eq previousZone_def orNull_def)
  have fresh: "previousZone ((Map.empty :: VehicleStore) ''t2'') = None"
    by (simp add: previousZone_def)
  have old: "eventsOf storeInA ''t1'' =
               [\<lparr>event_type = Enter, event_zone = ''A'', event_timestamp = 100\<rparr>]"
    by (simp add: storeInA_eq eventsOf_def)
  have none: "eventsOf (Map.empty :: VehicleStore) ''t2'' = []"
    by (simp add: eventsOf_def)
  from track_event_iff_zone_changed [where s = storeInA and vid = "''t1''" and zones = "[zoneA, zoneFar]" and lat = 1 and lon = 0 and ts = 200]
  have stay: "\<not> eventTriggered (fst (snd (trackVehicleLocation [zoneA, zoneFar] storeInA ''t1'' 1 0 200)))
     \<and> eventsOf (fst (trackVehicleLocation [zoneA, zoneFar] storeInA ''t1'' 1 0 200)) ''t1'' =
       [\<lparr>event_type = Enter, event_zone = ''A'', event_timestamp = 100\<rparr>]"
    by (simp add: prev find_A old slice_last_id MAX_EVENTS_PER_VEHICLE_def
        del: findCurrentZone.simps)
  from track_event_iff_zone_changed [where s = Map.empty and vid = "''t2''" and zones = "[zoneA, zoneFar]" and lat = 1 and lon = 0 and ts = 300]
  have enter: "eventTriggered (fst (snd (trackVehicleLocation [zoneA, zoneFar] Map.empty ''t2'' 1 0 300)))
     \<and> event (fst (snd (trackVehicleLocation [zoneA, zoneFar] Map.empty ''t2'' 1 0 300))) =
       Some \<lparr>event_type = Enter, event_zone = ''A'', event_timestamp = 300\<rparr>"
    by (simp add: fresh find_A none del: findCurrentZone.simps)
  from track_event_iff_zone_changed [where s = storeInA and vid = "''t1''" and zones = "[zoneA, zoneFar]" and lat = 5 and lon = 5 and ts = 400]
  have leave: "eventsOf (fst (trackVehicleLocation [zoneA, zoneFar] storeInA ''t1'' 5 5 400)) ''t1'' =
       [\<lparr>event_type = Enter, event_zone = ''A'', event_timestamp = 100\<rparr>,
        \<lparr>event_type = Exit, event_zone = ''A'', event_timestamp = 400\<rparr>]
     \<and> event (fst (snd (trackVehicleLocation [zoneA, zoneFar] storeInA ''t1'' 5 5 400))) =
       Some \<lparr>event_type = Exit, event_zone = ''A'', event_timestamp = 400\<rparr>"
    by (simp add: prev find_none old slice_last_id MAX_EVENTS_PER_VEHICLE_def
        del: findCurrentZone.simps)
  from stay enter leave show ?thesis by simp
qed

section \<open>The state update of one call\<close>

text \<open>
  Claim C5. Every call stores, for the vehicle, the new coordinates, the zone resolved
  for them and the timestamp of the call, whether or not an event fires. An anomalous
  movement adds one warning to what is logged and changes nothing else: the new store
  and the result are the same whatever the coordinates of the previous location were.
\<close>

theorem track_overwrites_location:
  fixes s :: VehicleStore and vid :: string and zones :: "Zone list" and lat lon ts :: real
  defines "p \<equiv> \<lparr>latitude = lat, longitude = lon\<rparr>"
    and "out \<equiv> trackVehicleLocation zones s vid lat lon ts"
  shows "(\<exists>d'. fst out vid = Some d'
            \<and> location d' = \<lparr>latitude = lat, longitude = lon, vehicleId = vid, timestamp = ts,
                               currentZone = findCurrentZone zones p\<rparr>)
       \<and> snd (snd out) =
           (case s vid of
              None \<Rightarrow> []
            | Some d \<Rightarrow>
                if calculateDistance (location d) p > MAX_REALISTIC_JUMP
                then [AnomalousMovementWarning vid (latitude (location d))
                        (longitude (location d)) lat lon]
                else [])
           @ snd (snd (snd (zoneChange vid (previousZone (s vid)) (findCurrentZone zones p) ts)))
       \<and> (\<forall>d a b. s vid = Some d \<longrightarrow>
             fst (trackVehicleLocation zones
                    (s(vid \<mapsto> d\<lparr>location := (location d)\<lparr>latitude := a, longitude := b\<rparr>\<rparr>))
                    vid lat lon ts) = fst out
           \<and> fst (snd (trackVehicleLocation zones
                    (s(vid \<mapsto> d\<lparr>location := (location d)\<lparr>latitude := a, longitude := b\<rparr>\<rparr>))
                    vid lat lon ts)) = fst (snd out))"
proof (intro conjI allI impI)
  show "\<exists>d'. fst out vid = Some d'
            \<and> location d' = \<lparr>latitude = lat, longitude = lon, vehicleId = vid, timestamp = ts,
                               currentZone = findCurrentZone zones p\<rparr>"
    by (simp add: out_def p_def track_store)
next
  show "snd (snd out) =
           (case s vid of
              None \<Rightarrow> []
            | Some d \<Rightarrow>
                if calculateDistance (location d) p > MAX_REALISTIC_JUMP
                then [AnomalousMovementWarning vid (latitude (location d))
                        (longitude (location d)) lat lon]
                else [])
           @ snd (snd (snd (zoneChange vid (previousZone (s vid)) (findCurrentZone zones p) ts)))"
    unfolding out_def p_def by (rule track_log)
next
  fix d a b
  assume d: "s vid = Some d"
  let ?s2 = "s(vid \<mapsto> d\<lparr>location := (location d)\<lparr>latitude := a, longitude := b\<rparr>\<rparr>)"
  have prev: "previousZone (?s2 vid) = previousZone (s vid)"
    by (simp add: d previousZone_def)
  have old: "eventsOf ?s2 vid = eventsOf s vid"
    by (simp add: d eventsOf_def)
  show "fst (trackVehicleLocation zones ?s2 vid lat lon ts) = fst out"
    unfolding out_def track_store pushed_def prev old by simp
  show "fst (snd (trackVehicleLocation zones ?s2 vid lat lon ts)) = fst (snd out)"
    unfolding out_def track_result prev by simp
qed

theorem track_overwrites_location_witness:
  "location (the (fst (trackVehicleLocation [zoneA, zoneFar] storeInA ''t1'' 10 10 200) ''t1'')) =
     \<lparr>latitude = 10, longitude = 10, vehicleId = ''t1'', timestamp = 200,
      currentZone = Some ''Far''\<rparr>
   \<and> snd (snd (trackVehicleLocation [zoneA, zoneFar] storeInA ''t1'' 10 10 200)) =
       [AnomalousMovementWarning ''t1'' 1 0 10 10, ExitedAndEnteredLog ''t1'' ''A'' ''Far'']
   \<and> fst (trackVehicleLocation [zoneA, zoneFar]
         (storeInA(''t1'' \<mapsto> (the (storeInA ''t1''))
            \<lparr>location := (location (the (storeInA ''t1'')))\<lparr>latitude := 10, longitude := 10\<rparr>\<rparr>))
         ''t1'' 10 10 200)
       = fst (trackVehicleLocation [zoneA, zoneFar] storeInA ''t1'' 10 10 200)"
proof -
  let ?d = "\<lparr>location = \<lparr>latitude = 1, longitude = 0, vehicleId = ''t1'', timestamp = 100,
                   currentZone = Some ''A''\<rparr>,
      events = [\<lparr>event_type = Enter, event_zone = ''A'', event_timestamp = 100\<rparr>]\<rparr>"
  have stored: "storeInA ''t1'' = Some ?d"
    by (simp add: storeInA_eq)
  have jump: "MAX_REALISTIC_JUMP < calculateDistance (location ?d) \<lparr>latitude = 10, longitude = 10\<rparr>"
    unfolding MAX_REALISTIC_JUMP_def
    by (subst calculateDistance_gt_iff) (simp_all add: power2_eq_square)
  have prev: "previousZone (storeInA ''t1'') = Some ''A''"
    by (simp add: stored previousZone_def orNull_def)
  note inst = track_overwrites_location [where s = storeInA and vid = "''t1''"
      and zones = "[zoneA, zoneFar]" and lat = 10 and lon = 10 and ts = 200]
  from inst have loc: "location (the (fst (trackVehicleLocation [zoneA, zoneFar] storeInA ''t1'' 10 10 200) ''t1'')) =
     \<lparr>latitude = 10, longitude = 10, vehicleId = ''t1'', timestamp = 200,
      currentZone = Some ''Far''\<rparr>"
    by (auto simp add: find_Far simp del: findCurrentZone.simps)
  from inst have log: "snd (snd (trackVehicleLocation [zoneA, zoneFar] storeInA ''t1'' 10 10 200)) =
       [AnomalousMovementWarning ''t1'' 1 0 10 10, ExitedAndEnteredLog ''t1'' ''A'' ''Far'']"
    using jump
    by (simp add: stored previousZone_def orNull_def find_Far zoneChange_switch
        del: findCurrentZone.simps)
  from inst stored have same: "fst (trackVehicleLocation [zoneA, zoneFar]
         (storeInA(''t1'' \<mapsto> (the (storeInA ''t1''))
            \<lparr>location := (location (the (storeInA ''t1'')))\<lparr>latitude := 10, longitude := 10\<rparr>\<rparr>))
         ''t1'' 10 10 200)
       = fst (trackVehicleLocation [zoneA, zoneFar] storeInA ''t1'' 10 10 200)"
    by (simp del: findCurrentZone.simps)
  from loc log same show ?thesis by blast
qed

section \<open>The scenario of the four configured zones\<close>

lemma downtown_vertex:
  "isPointInPolygon \<lparr>latitude = 40.7128, longitude = -74.0060\<rparr>
     [(40.7128, -74.0060), (40.7150, -74.0060), (40.7150, -74.0040), (40.7128, -74.0040)]"
  by (simp add: isPointInPolygon_quad intersect_def Let_def)

lemma harbor_vertex:
  "isPointInPolygon \<lparr>latitude = 40.6995, longitude = -74.0087\<rparr>
     [(40.7061, -74.0087), (40.7061, -73.9960), (40.6995, -73.9960), (40.6995, -74.0087)]"
  by (simp add: isPointInPolygon_quad intersect_def Let_def)

lemma find_scenario_A:
  "findCurrentZone initializeZones \<lparr>latitude = 40.7128, longitude = -74.0060\<rparr> = Some ''Downtown''"
  by (simp add: initializeZones_def isPointInZone_def isPointInPolygon_quad intersect_def Let_def)

lemma find_scenario_B:
  "findCurrentZone initializeZones \<lparr>latitude = 40.7135, longitude = -74.0055\<rparr> = Some ''Downtown''"
  by (simp add: initializeZones_def isPointInZone_def isPointInPolygon_quad intersect_def Let_def)

lemma find_scenario_C:
  "findCurrentZone initializeZones \<lparr>latitude = 40.6995, longitude = -74.0087\<rparr> = Some ''Harbor''"
  by (simp add: initializeZones_def isPointInZone_def isPointInPolygon_quad intersect_def
      Let_def isPointInCircle_sq power2_eq_square)

text \<open>
  Claim C6. With the four zones of \<open>initializeZones\<close> and an empty store, vehicle \<open>t1\<close>
  reports \<open>(40.7128, -74.0060)\<close>, then \<open>(40.7135, -74.0055)\<close>, then
  \<open>(40.6995, -74.0087)\<close>. The first report resolves to Downtown, sets \<open>eventTriggered\<close>
  and reports the entry into Downtown; the second triggers nothing and stays in Downtown;
  the third leaves the history \<open>Enter Downtown, Exit Downtown, Enter Harbor\<close> and reports
  the entry into Harbor. The first point is a vertex of the Downtown polygon and the
  third a vertex of the Harbor polygon: the ray casting test puts both inside.
\<close>

theorem scenario_downtown_harbor:
  fixes t1 t2 t3 :: real
  defines "outA \<equiv> trackVehicleLocation initializeZones Map.empty ''t1'' 40.7128 (-74.0060) t1"
  defines "outB \<equiv> trackVehicleLocation initializeZones (fst outA) ''t1'' 40.7135 (-74.0055) t2"
  defines "outC \<equiv> trackVehicleLocation initializeZones (fst outB) ''t1'' 40.6995 (-74.0087) t3"
  shows "tr_currentZone (fst (snd outA)) = Some ''Downtown''
       \<and> eventTriggered (fst (snd outA))
       \<and> event (fst (snd outA)) =
           Some \<lparr>event_type = Enter, event_zone = ''Downtown'', event_timestamp = t1\<rparr>
       \<and> \<not> eventTriggered (fst (snd outB))
       \<and> event (fst (snd outB)) = None
       \<and> tr_currentZone (fst (snd outB)) = Some ''Downtown''
       \<and> eventsOf (fst outC) ''t1'' =
           [\<lparr>event_type = Enter, event_zone = ''Downtown'', event_timestamp = t1\<rparr>,
            \<lparr>event_type = Exit, event_zone = ''Downtown'', event_timestamp = t3\<rparr>,
            \<lparr>event_type = Enter, event_zone = ''Harbor'', event_timestamp = t3\<rparr>]
       \<and> eventTriggered (fst (snd outC))
       \<and> event (fst (snd outC)) =
           Some \<lparr>event_type = Enter, event_zone = ''Harbor'', event_timestamp = t3\<rparr>
       \<and> tr_currentZone (fst (snd outC)) = Some ''Harbor''
       \<and> isPointInPolygon \<lparr>latitude = 40.7128, longitude = -74.0060\<rparr>
           [(40.7128, -74.0060), (40.7150, -74.0060), (40.7150, -74.0040), (40.7128, -74.0040)]
       \<and> isPointInPolygon \<lparr>latitude = 40.6995, longitude = -74.0087\<rparr>
           [(40.7061, -74.0087), (40.7061, -73.9960), (40.6995, -73.9960), (40.6995, -74.0087)]"
proof -
  let ?enterD = "\<lparr>event_type = Enter, event_zone = ''Downtown'', event_timestamp = t1\<rparr>"
  have prevA: "previousZone ((Map.empty :: VehicleStore) ''t1'') = None"
    by (simp add: previousZone_def)
  have resA: "fst (snd outA) =
      \<lparr>tr_vehicleId = ''t1'', tr_latitude = 40.7128, tr_longitude = -74.0060,
       tr_currentZone = Some ''Downtown'', eventTriggered = True, event = Some ?enterD\<rparr>"
    unfolding outA_def track_result find_scenario_A prevA
    by (simp add: zoneChange_enter)
  have histA: "eventsOf (fst outA) ''t1'' = [?enterD]"
    unfolding outA_def eventsOf_track pushed_def find_scenario_A prevA
    by (simp add: zoneChange_enter eventsOf_def slice_last_id MAX_EVENTS_PER_VEHICLE_def)
  have prevB: "previousZone (fst outA ''t1'') = Some ''Downtown''"
    unfolding outA_def track_store find_scenario_A
    by (simp add: previousZone_def orNull_def)
  have resB: "fst (snd outB) =
      \<lparr>tr_vehicleId = ''t1'', tr_latitude = 40.7135, tr_longitude = -74.0055,
       tr_currentZone = Some ''Downtown'', eventTriggered = False, event = None\<rparr>"
    unfolding outB_def track_result find_scenario_B prevB
    by (simp add: zoneChange_same)
  have histB: "eventsOf (fst outB) ''t1'' = [?enterD]"
    unfolding outB_def eventsOf_track pushed_def find_scenario_B prevB
    by (simp add: zoneChange_same histA slice_last_id MAX_EVENTS_PER_VEHICLE_def)
  have prevC: "previousZone (fst outB ''t1'') = Some ''Downtown''"
    unfolding outB_def track_store find_scenario_B
    by (simp add: previousZone_def orNull_def)
  have diff: "''Downtown'' \<noteq> ''Harbor''" by simp
  have resC: "fst (snd outC) =
      \<lparr>tr_vehicleId = ''t1'', tr_latitude = 40.6995, tr_longitude = -74.0087,
       tr_currentZone = Some ''Harbor'', eventTriggered = True,
       event = Some \<lparr>event_type = Enter, event_zone = ''Harbor'', event_timestamp = t3\<rparr>\<rparr>"
    unfolding outC_def track_result find_scenario_C prevC
    by (simp add: zoneChange_switch [OF diff])
  have histC: "eventsOf (fst outC) ''t1'' =
      [?enterD,
       \<lparr>event_type = Exit, event_zone = ''Downtown'', event_timestamp = t3\<rparr>,
       \<lparr>event_type = Enter, event_zone = ''Harbor'', event_timestamp = t3\<rparr>]"
    unfolding outC_def eventsOf_track pushed_def find_scenario_C prevC
    by (simp add: zoneChange_switch [OF diff] histB slice_last_id MAX_EVENTS_PER_VEHICLE_def)
  from resA resB resC histC downtown_vertex harbor_vertex show ?thesis by simp
qed

theorem scenario_downtown_harbor_witness:
  "eventsOf
     (fst (trackVehicleLocation initializeZones
        (fst (trackVehicleLocation initializeZones
           (fst (trackVehicleLocation initializeZones Map.empty ''t1'' 40.7128 (-74.0060) 1))
           ''t1'' 40.7135 (-74.0055) 2))
        ''t1'' 40.6995 (-74.0087) 3)) ''t1'' =
     [\<lparr>event_type = Enter, event_zone = ''Downtown'', event_timestamp = 1\<rparr>,
      \<lparr>event_type = Exit, event_zone = ''Downtown'', event_timestamp = 3\<rparr>,
      \<lparr>event_type = Enter, event_zone = ''Harbor'', event_timestamp = 3\<rparr>]"
  using scenario_downtown_harbor [of 1 2 3] by simp

section \<open>The cap on the history\<close>

lemma length_track_history:
  "length (eventsOf (fst (trackVehicleLocation zones s vid lat lon ts)) vid)
     \<le> MAX_EVENTS_PER_VEHICLE"
  by (simp add: eventsOf_track length_slice_last)













section \<open>Reporting the same point again\<close>

lemma find_unnamed_in:
  "findCurrentZone catalogWithUnnamed \<lparr>latitude = 0, longitude = 0\<rparr> = Some []"
  by (simp add: catalogWithUnnamed_def initializeZones_def unnamedZone_def isPointInZone_def
      isPointInPolygon_quad intersect_def Let_def isPointInCircle_sq power2_eq_square)

lemma find_unnamed_out:
  "findCurrentZone catalogWithUnnamed \<lparr>latitude = 5, longitude = 5\<rparr> = None"
  by (simp add: catalogWithUnnamed_def initializeZones_def unnamedZone_def isPointInZone_def
      isPointInPolygon_quad intersect_def Let_def isPointInCircle_sq power2_eq_square)

lemma storeInUnnamed_eq:
  "storeInUnnamed = [''t1'' \<mapsto>
     \<lparr>location = \<lparr>latitude = 0, longitude = 0, vehicleId = ''t1'', timestamp = 1,
                   currentZone = Some []\<rparr>,
      events = [\<lparr>event_type = Enter, event_zone = [], event_timestamp = 1\<rparr>]\<rparr>]"
  unfolding storeInUnnamed_def track_store pushed_def find_unnamed_in
  by (simp add: eventsOf_def previousZone_def zoneChange_enter slice_last_id
      MAX_EVENTS_PER_VEHICLE_def)

lemma previousZone_storeInUnnamed: "previousZone (storeInUnnamed ''t1'') = None"
  by (simp add: storeInUnnamed_eq previousZone_def orNull_def)

lemma findCurrentZone_named:
  "namesNonEmpty zones \<Longrightarrow> findCurrentZone zones p \<noteq> Some []"
  by (induction zones) (auto simp add: namesNonEmpty_def)

lemma previousZone_after_track:
  assumes "findCurrentZone zones \<lparr>latitude = lat, longitude = lon\<rparr> \<noteq> Some []"
  shows "previousZone (fst (trackVehicleLocation zones s vid lat lon ts) vid) =
           findCurrentZone zones \<lparr>latitude = lat, longitude = lon\<rparr>"
  using assms
  by (cases "findCurrentZone zones \<lparr>latitude = lat, longitude = lon\<rparr>")
     (simp_all add: track_store previousZone_def orNull_def)

lemma previousZone_other:
  "v \<noteq> vid \<Longrightarrow> previousZone (fst (trackVehicleLocation zones s vid lat lon ts) v) =
     previousZone (s v)"
  by (simp add: track_store)

lemma stay_no_event:
  assumes inv: "previousZone (s vid) = findCurrentZone zones \<lparr>latitude = lat, longitude = lon\<rparr>"
    and len: "length (eventsOf s vid) \<le> MAX_EVENTS_PER_VEHICLE"
  shows "\<not> eventTriggered (fst (snd (trackVehicleLocation zones s vid lat lon ts)))"
    and "event (fst (snd (trackVehicleLocation zones s vid lat lon ts))) = None"
    and "eventsOf (fst (trackVehicleLocation zones s vid lat lon ts)) vid = eventsOf s vid"
proof -
  show "\<not> eventTriggered (fst (snd (trackVehicleLocation zones s vid lat lon ts)))"
    by (simp add: track_result inv)
  show "event (fst (snd (trackVehicleLocation zones s vid lat lon ts))) = None"
    by (simp add: track_result inv zoneChange_same)
  show "eventsOf (fst (trackVehicleLocation zones s vid lat lon ts)) vid = eventsOf s vid"
    using len by (simp add: eventsOf_track pushed_def inv zoneChange_same slice_last_id)
qed

lemma repeated_reports_run:
  assumes named: "findCurrentZone zones \<lparr>latitude = lat, longitude = lon\<rparr> \<noteq> Some []"
    and same: "\<forall>r \<in> set reports. fst r = vid \<longrightarrow> fst (snd r) = lat \<and> fst (snd (snd r)) = lon"
    and inv: "previousZone (s vid) = findCurrentZone zones \<lparr>latitude = lat, longitude = lon\<rparr>"
    and len: "length (eventsOf s vid) \<le> MAX_EVENTS_PER_VEHICLE"
  shows "(\<forall>r \<in> set (snd (trackAll zones s reports)).
            tr_vehicleId r = vid \<longrightarrow> \<not> eventTriggered r \<and> event r = None)
       \<and> eventsOf (fst (trackAll zones s reports)) vid = eventsOf s vid"
  using same inv len
proof (induction reports arbitrary: s)
  case Nil
  show ?case by simp
next
  case (Cons r rest)
  obtain v la lo t where r: "r = (v, la, lo, t)" by (cases r) auto
  let ?out = "trackVehicleLocation zones s v la lo t"
  have rest_same: "\<forall>r \<in> set rest. fst r = vid \<longrightarrow> fst (snd r) = lat \<and> fst (snd (snd r)) = lon"
    using Cons.prems(1) by simp
  have head_id: "tr_vehicleId (fst (snd ?out)) = v"
    by (simp add: track_result)
  show ?case
  proof (cases "v = vid")
    case True
    with Cons.prems(1) have coords: "la = lat" "lo = lon" by (simp_all add: r)
    note stay = stay_no_event [OF Cons.prems(2) Cons.prems(3), of t]
    have inv': "previousZone (fst ?out vid) =
        findCurrentZone zones \<lparr>latitude = lat, longitude = lon\<rparr>"
      unfolding True coords by (rule previousZone_after_track [OF named])
    have len': "length (eventsOf (fst ?out) vid) \<le> MAX_EVENTS_PER_VEHICLE"
      using stay(3) Cons.prems(3) by (simp add: True coords)
    from Cons.IH [of "fst ?out", OF rest_same inv' len'] stay show ?thesis
      by (simp add: r True coords Let_def)
  next
    case False
    have inv': "previousZone (fst ?out vid) =
        findCurrentZone zones \<lparr>latitude = lat, longitude = lon\<rparr>"
      using False Cons.prems(2) by (simp add: previousZone_other)
    have same_hist: "eventsOf (fst ?out) vid = eventsOf s vid"
      using False by (simp add: eventsOf_track)
    with Cons.prems(3) have len': "length (eventsOf (fst ?out) vid) \<le> MAX_EVENTS_PER_VEHICLE"
      by simp
    from Cons.IH [of "fst ?out", OF rest_same inv' len'] same_hist head_id False show ?thesis
      by (simp add: r Let_def)
  qed
qed

lemma repeated_reports_trigger_nothing:
  fixes s :: VehicleStore and ts :: real
  assumes named: "findCurrentZone zones \<lparr>latitude = lat, longitude = lon\<rparr> \<noteq> Some []"
    and same: "\<forall>r \<in> set reports. fst r = vid \<longrightarrow> fst (snd r) = lat \<and> fst (snd (snd r)) = lon"
  shows "(\<forall>r \<in> set (snd (trackAll zones
                  (fst (trackVehicleLocation zones s vid lat lon ts)) reports)).
            tr_vehicleId r = vid \<longrightarrow> \<not> eventTriggered r \<and> event r = None)
       \<and> eventsOf (fst (trackAll zones
                  (fst (trackVehicleLocation zones s vid lat lon ts)) reports)) vid =
           eventsOf (fst (trackVehicleLocation zones s vid lat lon ts)) vid"
proof (rule repeated_reports_run [OF named same])
  show "previousZone (fst (trackVehicleLocation zones s vid lat lon ts) vid) =
      findCurrentZone zones \<lparr>latitude = lat, longitude = lon\<rparr>"
    by (rule previousZone_after_track [OF named])
  show "length (eventsOf (fst (trackVehicleLocation zones s vid lat lon ts)) vid)
      \<le> MAX_EVENTS_PER_VEHICLE"
    by (rule length_track_history)
qed

lemma repeated_reports_example:
  "eventsOf (fst (trackAll [zoneA, zoneFar] storeInA
       [(''t1'', 1, 0, 500), (''t2'', 10, 10, 600), (''t1'', 1, 0, 50)])) ''t1'' =
     [\<lparr>event_type = Enter, event_zone = ''A'', event_timestamp = 100\<rparr>]
   \<and> map eventTriggered (snd (trackAll [zoneA, zoneFar] storeInA
       [(''t1'', 1, 0, 500), (''t2'', 10, 10, 600), (''t1'', 1, 0, 50)])) = [False, True, False]"
proof -
  let ?reports = "[(''t1'', 1, 0, 500), (''t2'', 10, 10, 600), (''t1'', 1, 0, 50)]
                    :: LocationReport list"
  have named: "findCurrentZone [zoneA, zoneFar] \<lparr>latitude = 1, longitude = 0\<rparr> \<noteq> Some []"
    by (simp add: find_A del: findCurrentZone.simps)
  have same: "\<forall>r \<in> set ?reports. fst r = ''t1'' \<longrightarrow> fst (snd r) = 1 \<and> fst (snd (snd r)) = 0"
    by simp
  have old: "eventsOf storeInA ''t1'' =
      [\<lparr>event_type = Enter, event_zone = ''A'', event_timestamp = 100\<rparr>]"
    by (simp add: storeInA_eq eventsOf_def)
  have other: "previousZone (fst (trackVehicleLocation [zoneA, zoneFar] storeInA ''t1'' 1 0 500)
      ''t2'') = None"
    by (simp add: track_store storeInA_eq previousZone_def del: findCurrentZone.simps)
  from repeated_reports_trigger_nothing [OF named same, of Map.empty 100]
  have both: "(\<forall>r \<in> set (snd (trackAll [zoneA, zoneFar] storeInA ?reports)).
            tr_vehicleId r = ''t1'' \<longrightarrow> \<not> eventTriggered r \<and> event r = None)
       \<and> eventsOf (fst (trackAll [zoneA, zoneFar] storeInA ?reports)) ''t1'' =
           eventsOf storeInA ''t1''"
    unfolding storeInA_def [symmetric] .
  then have quiet: "\<forall>r \<in> set (snd (trackAll [zoneA, zoneFar] storeInA ?reports)).
            tr_vehicleId r = ''t1'' \<longrightarrow> \<not> eventTriggered r \<and> event r = None"
    and hist: "eventsOf (fst (trackAll [zoneA, zoneFar] storeInA ?reports)) ''t1'' =
           eventsOf storeInA ''t1''"
    by blast+
  from quiet have flags: "map eventTriggered (snd (trackAll [zoneA, zoneFar] storeInA ?reports)) =
      [False, True, False]"
    by (simp add: Let_def track_result other find_Far del: findCurrentZone.simps)
  from hist old flags show ?thesis by simp
qed

text \<open>
  Claim C8 says that reporting the same vehicle at the same coordinates again never
  triggers an event. \<open>repeated_reports_trigger_nothing\<close> above proves it for every catalog
  that resolves the point to a zone with a non-empty name or to no zone, for any run of
  later reports in which the vehicle keeps its coordinates, whatever the timestamps and
  whatever other vehicles report in between. For a point in a zone whose name is the empty
  string it fails: the stored name is read back as none, so the second report of the same
  point sets \<open>eventTriggered\<close> and pushes a second \<open>Enter\<close> event.
\<close>

theorem repeated_report_in_unnamed_zone:
  "eventTriggered (fst (snd (trackVehicleLocation catalogWithUnnamed storeInUnnamed ''t1'' 0 0 2)))
   \<and> eventsOf storeInUnnamed ''t1'' =
       [\<lparr>event_type = Enter, event_zone = [], event_timestamp = 1\<rparr>]
   \<and> eventsOf (fst (trackVehicleLocation catalogWithUnnamed storeInUnnamed ''t1'' 0 0 2)) ''t1'' =
       [\<lparr>event_type = Enter, event_zone = [], event_timestamp = 1\<rparr>,
        \<lparr>event_type = Enter, event_zone = [], event_timestamp = 2\<rparr>]"
proof -
  have old: "eventsOf storeInUnnamed ''t1'' =
       [\<lparr>event_type = Enter, event_zone = [], event_timestamp = 1\<rparr>]"
    by (simp add: storeInUnnamed_eq eventsOf_def)
  have flag: "eventTriggered
      (fst (snd (trackVehicleLocation catalogWithUnnamed storeInUnnamed ''t1'' 0 0 2)))"
    unfolding track_result find_unnamed_in previousZone_storeInUnnamed by simp
  have hist: "eventsOf (fst (trackVehicleLocation catalogWithUnnamed storeInUnnamed ''t1'' 0 0 2)) ''t1'' =
       [\<lparr>event_type = Enter, event_zone = [], event_timestamp = 1\<rparr>,
        \<lparr>event_type = Enter, event_zone = [], event_timestamp = 2\<rparr>]"
    unfolding eventsOf_track pushed_def find_unnamed_in previousZone_storeInUnnamed
    by (simp add: old zoneChange_enter slice_last_id MAX_EVENTS_PER_VEHICLE_def)
  from flag old hist show ?thesis by blast
qed

section \<open>Reading the status\<close>

lemma getVehicleStatus_None_iff: "getVehicleStatus s vid = None \<longleftrightarrow> s vid = None"
  by (simp add: getVehicleStatus_def split: option.split)

lemma dom_track: "dom (fst (trackVehicleLocation zones s vid lat lon ts)) = insert vid (dom s)"
  by (simp add: track_store)

lemma dom_handleAll:
  "dom (foldr (\<lambda>r s. handleRequest zones s r) earlier Map.empty) = trackedSinceReset earlier"
  by (induction earlier rule: trackedSinceReset.induct)
     (simp_all add: dom_track clearAllVehicleData_def)

lemma getVehicleStatus_fields:
  "s vid = Some d \<Longrightarrow>
     getVehicleStatus s vid =
       Some \<lparr>vs_vehicleId = vid, vs_currentZone = orNull (currentZone (location d)),
             lastLocationUpdate = timestamp (location d),
             lastLocation = \<lparr>latitude = latitude (location d),
                              longitude = longitude (location d)\<rparr>,
             recentEvents = slice_last 10 (events d),
             totalEventsTracked = length (events d)\<rparr>"
  by (simp add: getVehicleStatus_def)

lemma orNull_named: "z \<noteq> Some [] \<Longrightarrow> orNull z = z"
  by (cases z) (simp_all add: orNull_def)

text \<open>
  Claim C9 says that the status of a tracked vehicle has the stored \<open>currentZone\<close>. The
  lemmas above prove the rest of the claim: the status is absent exactly for a vehicle
  not reported since the last reset, and it has the stored timestamp and coordinates, the
  last 10 events and the length of the history; \<open>getVehicleStatus\<close> only reads the store.
  The zone is the stored one unless the stored name is the empty string: for a vehicle
  in a zone with the empty name the store has that name and the status has none.
\<close>

theorem status_in_unnamed_zone:
  "map_option (currentZone \<circ> location) (storeInUnnamed ''t1'') = Some (Some [])
   \<and> map_option vs_currentZone (getVehicleStatus storeInUnnamed ''t1'') = Some None"
  by (simp add: storeInUnnamed_eq getVehicleStatus_def orNull_def)

section \<open>History and state agree\<close>

lemma last_slice_last: "0 < n \<Longrightarrow> xs \<noteq> [] \<Longrightarrow> last (slice_last n xs) = last xs"
  by (simp add: slice_last_def)

lemma slice_last_Nil_iff: "0 < n \<Longrightarrow> slice_last n xs = [] \<longleftrightarrow> xs = []"
  by (cases xs) (simp_all add: slice_last_def)

lemma coherent_after_track:
  assumes named: "findCurrentZone zones \<lparr>latitude = lat, longitude = lon\<rparr> \<noteq> Some []"
    and before: "\<forall>d. s vid = Some d \<longrightarrow> coherent d \<and> currentZone (location d) \<noteq> Some []"
    and after: "fst (trackVehicleLocation zones s vid lat lon ts) vid = Some d'"
  shows "coherent d' \<and> currentZone (location d') \<noteq> Some []"
proof -
  let ?new = "findCurrentZone zones \<lparr>latitude = lat, longitude = lon\<rparr>"
  let ?prev = "previousZone (s vid)"
  let ?hist = "slice_last MAX_EVENTS_PER_VEHICLE (eventsOf s vid @ pushed zones s vid lat lon ts)"
  from after have d': "currentZone (location d') = ?new" "events d' = ?hist"
    by (auto simp add: track_store)
  have cap: "0 < MAX_EVENTS_PER_VEHICLE" by (simp add: MAX_EVENTS_PER_VEHICLE_def)
  have "coherent d'"
  proof (cases "?prev = ?new")
    case True
    then have hist: "events d' = slice_last MAX_EVENTS_PER_VEHICLE (eventsOf s vid)"
      by (simp add: d' pushed_def zoneChange_same)
    show ?thesis
    proof (cases "s vid")
      case None
      then show ?thesis using True
        by (simp add: coherent_def d'(1) hist eventsOf_def previousZone_def slice_last_def
            split: option.split)
    next
      case (Some d)
      with before have coh: "coherent d" and nm: "currentZone (location d) \<noteq> Some []"
        by simp_all
      from Some nm have prev: "?prev = currentZone (location d)"
        by (simp add: previousZone_def orNull_named)
      from Some have old: "eventsOf s vid = events d" by (simp add: eventsOf_def)
      from True prev have zone: "currentZone (location d') = currentZone (location d)"
        by (simp add: d'(1))
      show ?thesis
      proof (cases "events d = []")
        case True
        with coh show ?thesis
          by (simp add: coherent_def zone hist old slice_last_def split: option.splits)
      next
        case False
        then have "last (events d') = last (events d)" and "events d' \<noteq> []"
          by (simp_all add: hist old last_slice_last [OF cap] slice_last_Nil_iff [OF cap])
        with coh False show ?thesis
          by (simp add: coherent_def zone split: option.splits)
      qed
    qed
  next
    case False
    have tail: "\<exists>older. ?hist = older @ pushed zones s vid lat lon ts"
    proof -
      have "length (pushed zones s vid lat lon ts) \<le> MAX_EVENTS_PER_VEHICLE"
        by (cases ?prev; cases ?new)
           (simp_all add: pushed_def zoneChange_def Let_def MAX_EVENTS_PER_VEHICLE_def)
      then show ?thesis by (simp add: slice_last_append_short)
    qed
    then obtain older where older: "events d' = older @ pushed zones s vid lat lon ts"
      unfolding d'(2) by blast
    from False show ?thesis
      unfolding coherent_def d'(1) older
      by (cases ?prev; cases ?new)
         (simp_all add: pushed_def zoneChange_def Let_def isEnterOf_def)
  qed
  with named show ?thesis by (simp add: d')
qed

lemma coherent_reachable:
  "reachable namesNonEmpty s \<Longrightarrow> s vid = Some d
     \<Longrightarrow> coherent d \<and> currentZone (location d) \<noteq> Some []"
proof (induction arbitrary: vid d rule: reachable.induct)
  case fresh
  then show ?case by simp
next
  case (tracked s zones v lat lon ts)
  show ?case
  proof (cases "vid = v")
    case True
    have named: "findCurrentZone zones \<lparr>latitude = lat, longitude = lon\<rparr> \<noteq> Some []"
      using tracked.hyps(2) by (rule findCurrentZone_named)
    have before: "\<forall>d. s v = Some d \<longrightarrow> coherent d \<and> currentZone (location d) \<noteq> Some []"
      using tracked.IH by blast
    from tracked.prems True
    have "fst (trackVehicleLocation zones s v lat lon ts) v = Some d" by simp
    from coherent_after_track [OF named before this] show ?thesis .
  next
    case False
    with tracked.prems have "s vid = Some d" by (simp add: track_store)
    then show ?thesis by (rule tracked.IH)
  qed
next
  case (cleared s)
  then show ?case by (simp add: clearAllVehicleData_def)
qed

lemma coherent_example:
  "map_option coherent (storeInA ''t1'') = Some True
   \<and> map_option coherent
       (fst (trackVehicleLocation [zoneA, zoneFar] storeInA ''t1'' 5 5 2) ''t1'') = Some True"
proof -
  have cat: "namesNonEmpty [zoneA, zoneFar]"
    by (simp add: namesNonEmpty_def zoneA_def zoneFar_def)
  have r1: "reachable namesNonEmpty storeInA"
    unfolding storeInA_def using cat by (intro reachable.tracked reachable.fresh)
  then have r2: "reachable namesNonEmpty
      (fst (trackVehicleLocation [zoneA, zoneFar] storeInA ''t1'' 5 5 2))"
    using cat by (intro reachable.tracked)
  obtain d1 where d1: "storeInA ''t1'' = Some d1" by (simp add: storeInA_eq)
  obtain d2 where d2: "fst (trackVehicleLocation [zoneA, zoneFar] storeInA ''t1'' 5 5 2) ''t1''
      = Some d2"
    by (simp add: track_store)
  from coherent_reachable [OF r1 d1] coherent_reachable [OF r2 d2] d1 d2 show ?thesis
    by simp
qed

text \<open>
  Claim C10 says that in every reachable store a vehicle in zone \<open>Z\<close> has a history that
  ends with \<open>Enter Z\<close>, and a vehicle in no zone has a history that is empty or ends with
  an exit. \<open>coherent_reachable\<close> above proves it when no catalog has a zone with the empty
  name. With such a zone it fails: leaving that zone pushes no exit, so the store reached
  has the vehicle in no zone with a history that ends with an \<open>Enter\<close> event.
\<close>

theorem left_unnamed_zone_without_exit:
  "reachable (\<lambda>zones. True) (fst (trackVehicleLocation catalogWithUnnamed storeInUnnamed ''t1'' 5 5 2))
   \<and> map_option (currentZone \<circ> location)
        (fst (trackVehicleLocation catalogWithUnnamed storeInUnnamed ''t1'' 5 5 2) ''t1'') = Some None
   \<and> eventsOf (fst (trackVehicleLocation catalogWithUnnamed storeInUnnamed ''t1'' 5 5 2)) ''t1'' =
       [\<lparr>event_type = Enter, event_zone = [], event_timestamp = 1\<rparr>]
   \<and> map_option coherent
        (fst (trackVehicleLocation catalogWithUnnamed storeInUnnamed ''t1'' 5 5 2) ''t1'') = Some False"
proof -
  let ?s2 = "fst (trackVehicleLocation catalogWithUnnamed storeInUnnamed ''t1'' 5 5 2)"
  have "reachable (\<lambda>zones. True) storeInUnnamed"
    unfolding storeInUnnamed_def by (intro reachable.tracked reachable.fresh) simp
  then have reach: "reachable (\<lambda>zones. True) ?s2"
    by (intro reachable.tracked) simp_all
  have old: "eventsOf storeInUnnamed ''t1'' =
       [\<lparr>event_type = Enter, event_zone = [], event_timestamp = 1\<rparr>]"
    by (simp add: storeInUnnamed_eq eventsOf_def)
  have s2: "?s2 = storeInUnnamed(''t1'' \<mapsto>
     \<lparr>location = \<lparr>latitude = 5, longitude = 5, vehicleId = ''t1'', timestamp = 2,
                   currentZone = None\<rparr>,
      events = [\<lparr>event_type = Enter, event_zone = [], event_timestamp = 1\<rparr>]\<rparr>)"
    unfolding track_store pushed_def find_unnamed_out previousZone_storeInUnnamed
    by (simp add: old zoneChange_same slice_last_id MAX_EVENTS_PER_VEHICLE_def)
  have zone: "map_option (currentZone \<circ> location) (?s2 ''t1'') = Some None"
    unfolding s2 by simp
  have hist: "eventsOf ?s2 ''t1'' =
       [\<lparr>event_type = Enter, event_zone = [], event_timestamp = 1\<rparr>]"
    unfolding s2 by (simp add: eventsOf_def)
  have bad: "map_option coherent (?s2 ''t1'') = Some False"
    unfolding s2 by (simp add: coherent_def)
  from reach zone hist bad show ?thesis by blast
qed

section \<open>Transitions at the zone without a name\<close>

lemma find_unnamed_downtown:
  "findCurrentZone catalogWithUnnamed \<lparr>latitude = 40.7135, longitude = -74.0055\<rparr> = Some ''Downtown''"
  by (simp add: catalogWithUnnamed_def initializeZones_def isPointInZone_def
      isPointInPolygon_quad intersect_def Let_def)

lemma stored_zone_storeInUnnamed:
  "map_option (currentZone \<circ> location) (storeInUnnamed ''t1'') = Some (Some [])"
  by (simp add: storeInUnnamed_eq)

lemma eventsOf_storeInUnnamed:
  "eventsOf storeInUnnamed ''t1'' = [\<lparr>event_type = Enter, event_zone = [], event_timestamp = 1\<rparr>]"
  by (simp add: storeInUnnamed_eq eventsOf_def)

text \<open>
  Claim C1 says that a call for a vehicle whose stored zone is \<open>Z1\<close> and whose newly
  resolved zone is \<open>Z2\<close>, both of them zones and different, pushes \<open>Exit Z1\<close> and then
  \<open>Enter Z2\<close>. \<open>track_exit_then_enter\<close> above proves that for every stored zone whose
  name is not the empty string. For the zone whose name is the empty string it fails: the
  call reads the stored name back as none and takes the branch of a vehicle that comes
  from outside all zones. The vehicle is stored in that zone, the new point resolves to
  \<open>Downtown\<close>, and the call pushes the one event \<open>Enter Downtown\<close>: the history has no
  \<open>Exit\<close> event for the zone left.
\<close>

theorem exit_missing_from_unnamed_zone:
  "map_option (currentZone \<circ> location) (storeInUnnamed ''t1'') = Some (Some [])
   \<and> findCurrentZone catalogWithUnnamed \<lparr>latitude = 40.7135, longitude = -74.0055\<rparr>
       = Some ''Downtown''
   \<and> eventsOf storeInUnnamed ''t1'' =
       [\<lparr>event_type = Enter, event_zone = [], event_timestamp = 1\<rparr>]
   \<and> eventsOf (fst (trackVehicleLocation catalogWithUnnamed storeInUnnamed ''t1''
                      40.7135 (-74.0055) 2)) ''t1'' =
       [\<lparr>event_type = Enter, event_zone = [], event_timestamp = 1\<rparr>,
        \<lparr>event_type = Enter, event_zone = ''Downtown'', event_timestamp = 2\<rparr>]
   \<and> eventTriggered (fst (snd (trackVehicleLocation catalogWithUnnamed storeInUnnamed ''t1''
                                 40.7135 (-74.0055) 2)))
   \<and> event (fst (snd (trackVehicleLocation catalogWithUnnamed storeInUnnamed ''t1''
                        40.7135 (-74.0055) 2))) =
       Some \<lparr>event_type = Enter, event_zone = ''Downtown'', event_timestamp = 2\<rparr>"
proof -
  have hist: "eventsOf (fst (trackVehicleLocation catalogWithUnnamed storeInUnnamed ''t1''
                      40.7135 (-74.0055) 2)) ''t1'' =
       [\<lparr>event_type = Enter, event_zone = [], event_timestamp = 1\<rparr>,
        \<lparr>event_type = Enter, event_zone = ''Downtown'', event_timestamp = 2\<rparr>]"
    unfolding eventsOf_track pushed_def find_unnamed_downtown previousZone_storeInUnnamed
    by (simp add: eventsOf_storeInUnnamed zoneChange_enter slice_last_id
        MAX_EVENTS_PER_VEHICLE_def)
  have res: "eventTriggered (fst (snd (trackVehicleLocation catalogWithUnnamed storeInUnnamed ''t1''
                                 40.7135 (-74.0055) 2)))
     \<and> event (fst (snd (trackVehicleLocation catalogWithUnnamed storeInUnnamed ''t1''
                        40.7135 (-74.0055) 2))) =
       Some \<lparr>event_type = Enter, event_zone = ''Downtown'', event_timestamp = 2\<rparr>"
    unfolding track_result find_unnamed_downtown previousZone_storeInUnnamed
    by (simp add: zoneChange_enter)
  from stored_zone_storeInUnnamed find_unnamed_downtown eventsOf_storeInUnnamed hist res
  show ?thesis by blast
qed

text \<open>
  Claim C2 says that \<open>eventTriggered\<close> is set exactly when the newly resolved zone differs
  from the stored one, that equal zones give no event, and that the change from a zone
  \<open>Z\<close> to none pushes and reports \<open>Exit Z\<close>. \<open>track_event_iff_zone_changed\<close> above proves
  all of it for the previous zone as the call reads it, which is the stored zone unless
  that is the empty name. For a vehicle stored in the zone whose name is the empty string
  the claim fails in both directions. Reported again at a point of that zone, where the
  new zone equals the stored one, the call sets \<open>eventTriggered\<close> and reports and pushes
  an \<open>Enter\<close> event. Reported at a point outside all zones, where the new zone is none
  and differs from the stored one, the call sets no flag, reports no event and pushes no
  \<open>Exit\<close> event.
\<close>

theorem trigger_flag_in_unnamed_zone:
  "map_option (currentZone \<circ> location) (storeInUnnamed ''t1'') = Some (Some [])
   \<and> findCurrentZone catalogWithUnnamed \<lparr>latitude = 0, longitude = 0\<rparr> = Some []
   \<and> eventTriggered (fst (snd (trackVehicleLocation catalogWithUnnamed storeInUnnamed ''t1'' 0 0 2)))
   \<and> event (fst (snd (trackVehicleLocation catalogWithUnnamed storeInUnnamed ''t1'' 0 0 2))) =
       Some \<lparr>event_type = Enter, event_zone = [], event_timestamp = 2\<rparr>
   \<and> eventsOf (fst (trackVehicleLocation catalogWithUnnamed storeInUnnamed ''t1'' 0 0 2)) ''t1'' =
       [\<lparr>event_type = Enter, event_zone = [], event_timestamp = 1\<rparr>,
        \<lparr>event_type = Enter, event_zone = [], event_timestamp = 2\<rparr>]
   \<and> findCurrentZone catalogWithUnnamed \<lparr>latitude = 5, longitude = 5\<rparr> = None
   \<and> \<not> eventTriggered (fst (snd (trackVehicleLocation catalogWithUnnamed storeInUnnamed ''t1'' 5 5 2)))
   \<and> event (fst (snd (trackVehicleLocation catalogWithUnnamed storeInUnnamed ''t1'' 5 5 2))) = None
   \<and> eventsOf (fst (trackVehicleLocation catalogWithUnnamed storeInUnnamed ''t1'' 5 5 2)) ''t1'' =
       [\<lparr>event_type = Enter, event_zone = [], event_timestamp = 1\<rparr>]"
proof -
  have same: "eventTriggered (fst (snd (trackVehicleLocation catalogWithUnnamed storeInUnnamed ''t1'' 0 0 2)))
     \<and> event (fst (snd (trackVehicleLocation catalogWithUnnamed storeInUnnamed ''t1'' 0 0 2))) =
       Some \<lparr>event_type = Enter, event_zone = [], event_timestamp = 2\<rparr>"
    unfolding track_result find_unnamed_in previousZone_storeInUnnamed
    by (simp add: zoneChange_enter)
  have again: "eventsOf (fst (trackVehicleLocation catalogWithUnnamed storeInUnnamed ''t1'' 0 0 2)) ''t1'' =
       [\<lparr>event_type = Enter, event_zone = [], event_timestamp = 1\<rparr>,
        \<lparr>event_type = Enter, event_zone = [], event_timestamp = 2\<rparr>]"
    unfolding eventsOf_track pushed_def find_unnamed_in previousZone_storeInUnnamed
    by (simp add: eventsOf_storeInUnnamed zoneChange_enter slice_last_id MAX_EVENTS_PER_VEHICLE_def)
  have left: "\<not> eventTriggered (fst (snd (trackVehicleLocation catalogWithUnnamed storeInUnnamed ''t1'' 5 5 2)))
     \<and> event (fst (snd (trackVehicleLocation catalogWithUnnamed storeInUnnamed ''t1'' 5 5 2))) = None"
    unfolding track_result find_unnamed_out previousZone_storeInUnnamed
    by (simp add: zoneChange_same)
  have none: "eventsOf (fst (trackVehicleLocation catalogWithUnnamed storeInUnnamed ''t1'' 5 5 2)) ''t1'' =
       [\<lparr>event_type = Enter, event_zone = [], event_timestamp = 1\<rparr>]"
    unfolding eventsOf_track pushed_def find_unnamed_out previousZone_storeInUnnamed
    by (simp add: eventsOf_storeInUnnamed zoneChange_same slice_last_id MAX_EVENTS_PER_VEHICLE_def)
  from stored_zone_storeInUnnamed find_unnamed_in same again find_unnamed_out left none
  show ?thesis by blast
qed


end
